theory Spec2Isabelle
  imports Complex_Main
begin

section \<open>Constants\<close>

text \<open>
  The program is a tile-based maze game (\<^verbatim>\<open>pacman.py\<close>). Grid positions are Python floats;
  they are modelled as rationals, so every sum is exact. The player speed \<open>6/24\<close> is dyadic
  and its float arithmetic is exact as well; the adversary speeds \<open>5/24\<close>, \<open>3.5/24\<close> and
  \<open>7/24\<close> are rounded in the program, by less than \<open>10\<^sup>-\<^sup>1\<^sup>5\<close> per operation.
  Rendering, the window and the clock are left out; the keyboard is an input record and
  the module-level random generator is a stream of raw draws threaded through the calls.
\<close>

definition TILE_SIZE :: int where "TILE_SIZE = 24"
definition FPS :: int where "FPS = 60"

datatype ghost_state = GHOST_NORMAL | GHOST_VULNERABLE | GHOST_EATEN

type_synonym tile = "int \<times> int"
type_synonym dir = "int \<times> int"
type_synonym gridpos = "rat \<times> rat"

definition UP :: dir where "UP = (0, -1)"
definition DOWN :: dir where "DOWN = (0, 1)"
definition LEFT :: dir where "LEFT = (-1, 0)"
definition RIGHT :: dir where "RIGHT = (1, 0)"
definition STOP :: dir where "STOP = (0, 0)"
definition ALL_DIRS :: "dir list" where "ALL_DIRS = [UP, DOWN, LEFT, RIGHT]"

section \<open>Random source\<close>

text \<open>
  \<^verbatim>\<open>random.choice(seq)\<close> returns \<^verbatim>\<open>seq[k]\<close> for a generator-chosen \<open>k < len(seq)\<close>.
  The generator is the stream of its raw draws; a draw is reduced modulo the length.
  Every call site of the program passes a non-empty sequence (\<^verbatim>\<open>ALL_DIRS\<close>, or a list
  tested for emptiness just before), so the \<^verbatim>\<open>IndexError\<close> of an empty sequence is
  never raised.
\<close>

type_synonym rng = "nat \<Rightarrow> nat"

definition choice :: "rng \<Rightarrow> 'a list \<Rightarrow> 'a \<times> rng" where
  "choice r xs = (xs ! (r 0 mod length xs), \<lambda>n. r (Suc n))"

text \<open>A generator that replays a finite list of draws and then only draws zero.\<close>

definition replay :: "nat list \<Rightarrow> rng" where
  "replay xs = (\<lambda>n. if n < length xs then xs ! n else 0)"

section \<open>Python numerics\<close>

text \<open>Built-in \<^verbatim>\<open>round\<close> with one argument: nearest integer, halves to the even one.\<close>

definition py_round :: "rat \<Rightarrow> int" where
  "py_round q =
     (let f = \<lfloor>q\<rfloor>; d = q - of_int f
      in if d < 1 / 2 then f
         else if 1 / 2 < d then f + 1
         else if even f then f else f + 1)"

text \<open>\<^verbatim>\<open>int(x)\<close> on a float truncates toward zero.\<close>

definition py_int :: "rat \<Rightarrow> int" where
  "py_int q = (if 0 \<le> q then \<lfloor>q\<rfloor> else \<lceil>q\<rceil>)"

definition round_tile :: "gridpos \<Rightarrow> tile" where
  "round_tile p = (py_round (fst p), py_round (snd p))"

section \<open>Maze\<close>

record Maze =
  layout :: "string list"
  height :: int
  width :: int
  walls :: "tile set"
  pellets :: "tile set"
  power_pellets :: "tile set"
  player_start :: tile
  ghost_starts :: "tile list"
  house_pos :: tile

definition parse_cell :: "int \<Rightarrow> int \<Rightarrow> char \<Rightarrow> Maze \<Rightarrow> Maze" where
  "parse_cell x y ch m =
     (if ch = CHR ''#'' then m\<lparr>walls := insert (x, y) (walls m)\<rparr>
      else if ch = CHR ''.'' then m\<lparr>pellets := insert (x, y) (pellets m)\<rparr>
      else if ch = CHR ''o'' then m\<lparr>power_pellets := insert (x, y) (power_pellets m)\<rparr>
      else if ch = CHR ''P'' then m\<lparr>player_start := (x, y)\<rparr>
      else if ch = CHR ''C'' then m\<lparr>ghost_starts := ghost_starts m @ [(x, y)]\<rparr>
      else if ch = CHR ''R'' then m\<lparr>ghost_starts := ghost_starts m @ [(x, y)]\<rparr>
      else if ch = CHR ''H'' then m\<lparr>house_pos := (x, y)\<rparr>
      else m)"

fun parse_row :: "int \<Rightarrow> int \<Rightarrow> string \<Rightarrow> Maze \<Rightarrow> Maze" where
  "parse_row y x [] m = m"
| "parse_row y x (ch # cs) m = parse_row y (x + 1) cs (parse_cell x y ch m)"

fun parse_rows :: "int \<Rightarrow> string list \<Rightarrow> Maze \<Rightarrow> Maze" where
  "parse_rows y [] m = m"
| "parse_rows y (row # rows) m = parse_rows (y + 1) rows (parse_row y 0 row m)"

definition parse :: "Maze \<Rightarrow> Maze" where
  "parse m = parse_rows 0 (layout m) m"

definition Maze_init :: "string list \<Rightarrow> Maze" where
  "Maze_init lay =
     (let h = int (length lay);
          w = (if 0 < h then int (length (hd lay)) else 0)
      in parse \<lparr>layout = lay, height = h, width = w, walls = {}, pellets = {},
                power_pellets = {}, player_start = (1, 1), ghost_starts = [],
                house_pos = (w div 2, h div 2)\<rparr>)"

definition in_bounds :: "Maze \<Rightarrow> int \<Rightarrow> int \<Rightarrow> bool" where
  "in_bounds m gx gy \<longleftrightarrow> 0 \<le> gx \<and> gx < width m \<and> 0 \<le> gy \<and> gy < height m"

definition passable :: "Maze \<Rightarrow> int \<Rightarrow> int \<Rightarrow> bool" where
  "passable m gx gy \<longleftrightarrow> (gx, gy) \<notin> walls m"

section \<open>Utility\<close>

definition grid_to_px :: "gridpos \<Rightarrow> int \<times> int" where
  "grid_to_px p =
     (py_int (fst p * of_int TILE_SIZE + of_int TILE_SIZE / 2),
      py_int (snd p * of_int TILE_SIZE + of_int TILE_SIZE / 2))"

definition manhattan :: "tile \<Rightarrow> tile \<Rightarrow> int" where
  "manhattan a b = \<bar>fst a - fst b\<bar> + \<bar>snd a - snd b\<bar>"

section \<open>Player\<close>

record Player =
  p_pos :: gridpos
  p_dir :: dir
  p_next_dir :: dir
  p_lives :: int
  p_score :: int

definition player_speed :: rat where
  "player_speed = 6 / of_int TILE_SIZE"

definition Player_init :: "tile \<Rightarrow> Player" where
  "Player_init start =
     \<lparr>p_pos = (of_int (fst start), of_int (snd start)), p_dir = STOP, p_next_dir = STOP,
      p_lives = 3, p_score = 0\<rparr>"

text \<open>The four arrow keys as read by \<^verbatim>\<open>pygame.key.get_pressed\<close>.\<close>

record keys =
  K_UP :: bool
  K_DOWN :: bool
  K_LEFT :: bool
  K_RIGHT :: bool

definition handle_input :: "keys \<Rightarrow> Player \<Rightarrow> Player" where
  "handle_input ks p =
     (if K_UP ks then p\<lparr>p_next_dir := UP\<rparr>
      else if K_DOWN ks then p\<lparr>p_next_dir := DOWN\<rparr>
      else if K_LEFT ks then p\<lparr>p_next_dir := LEFT\<rparr>
      else if K_RIGHT ks then p\<lparr>p_next_dir := RIGHT\<rparr>
      else p)"

definition centered :: "gridpos \<Rightarrow> bool" where
  "centered q \<longleftrightarrow>
     \<bar>fst q - of_int (py_round (fst q))\<bar> < 1 / 10 \<and> \<bar>snd q - of_int (py_round (snd q))\<bar> < 1 / 10"

definition is_centered_on_tile :: "Player \<Rightarrow> bool" where
  "is_centered_on_tile p = centered (p_pos p)"

definition can_move :: "Maze \<Rightarrow> Player \<Rightarrow> dir \<Rightarrow> bool" where
  "can_move m p d =
     (let (gx, gy) = round_tile (p_pos p); nx = gx + fst d; ny = gy + snd d
      in in_bounds m nx ny \<and> passable m nx ny)"

definition clamp_inside_walls :: "Maze \<Rightarrow> Player \<Rightarrow> Player" where
  "clamp_inside_walls m p =
     (if \<not> is_centered_on_tile p then p
      else let (gx, gy) = round_tile (p_pos p)
           in if (gx, gy) \<in> walls m then p\<lparr>p_pos := (of_int gx, of_int gy)\<rparr> else p)"

text \<open>\<^verbatim>\<open>Player.update\<close>, block by block: the latched turn, the stop at a blocked
  centre, the move, the clamp.\<close>

definition apply_next_dir :: "Maze \<Rightarrow> Player \<Rightarrow> Player" where
  "apply_next_dir m p =
     (if p_next_dir p \<noteq> p_dir p then
        (if is_centered_on_tile p then
           (if can_move m p (p_next_dir p) then p\<lparr>p_dir := p_next_dir p\<rparr> else p)
         else p)
      else p)"

definition stop_if_blocked :: "Maze \<Rightarrow> Player \<Rightarrow> Player" where
  "stop_if_blocked m p =
     (if \<not> can_move m p (p_dir p) then
        (if is_centered_on_tile p then p\<lparr>p_dir := STOP\<rparr> else p)
      else p)"

definition move_player :: "Player \<Rightarrow> Player" where
  "move_player p =
     p\<lparr>p_pos := (fst (p_pos p) + of_int (fst (p_dir p)) * player_speed,
                  snd (p_pos p) + of_int (snd (p_dir p)) * player_speed)\<rparr>"

definition update_player :: "Maze \<Rightarrow> Player \<Rightarrow> Player" where
  "update_player m p = clamp_inside_walls m (move_player (stop_if_blocked m (apply_next_dir m p)))"

text \<open>\<^verbatim>\<open>eat_pellets\<close> mutates the shared maze; the model returns it with the player and
  the two counts.\<close>

definition eat_pellets :: "Maze \<Rightarrow> Player \<Rightarrow> Maze \<times> Player \<times> int \<times> int" where
  "eat_pellets m p =
     (let t = round_tile (p_pos p);
          (m1, p1, eaten) = (if t \<in> pellets m
                             then (m\<lparr>pellets := pellets m - {t}\<rparr>, p\<lparr>p_score := p_score p + 10\<rparr>, 1)
                             else (m, p, 0));
          (m2, p2, power) = (if t \<in> power_pellets m1
                             then (m1\<lparr>power_pellets := power_pellets m1 - {t}\<rparr>,
                                   p1\<lparr>p_score := p_score p1 + 50\<rparr>, 1)
                             else (m1, p1, 0))
      in (m2, p2, eaten, power))"

section \<open>Ghosts\<close>

text \<open>\<^verbatim>\<open>ChaserGhost\<close> keeps the greedy \<^verbatim>\<open>_choose_dir\<close> of the base class,
  \<^verbatim>\<open>RandomGhost\<close> overrides it. Colour, radius and the never-read
  \<^verbatim>\<open>last_valid_dir\<close> are left out.\<close>

datatype ghost_class = ChaserGhost | RandomGhost

record Ghost =
  g_class :: ghost_class
  g_start :: tile
  g_pos :: gridpos
  g_dir :: dir
  g_state :: ghost_state

definition speed_normal :: rat where "speed_normal = 5 / of_int TILE_SIZE"
definition speed_vulnerable :: rat where "speed_vulnerable = (7 / 2) / of_int TILE_SIZE"
definition speed_eaten :: rat where "speed_eaten = 7 / of_int TILE_SIZE"

definition Ghost_init :: "ghost_class \<Rightarrow> tile \<Rightarrow> rng \<Rightarrow> Ghost \<times> rng" where
  "Ghost_init c start r =
     (let (d, r') = choice r ALL_DIRS
      in (\<lparr>g_class = c, g_start = start, g_pos = (of_int (fst start), of_int (snd start)),
           g_dir = d, g_state = GHOST_NORMAL\<rparr>, r'))"

definition reset :: "Ghost \<Rightarrow> rng \<Rightarrow> Ghost \<times> rng" where
  "reset g r =
     (let (d, r') = choice r ALL_DIRS
      in (g\<lparr>g_pos := (of_int (fst (g_start g)), of_int (snd (g_start g))),
            g_dir := d, g_state := GHOST_NORMAL\<rparr>, r'))"

definition set_vulnerable :: "Ghost \<Rightarrow> Ghost" where
  "set_vulnerable g = (if g_state g \<noteq> GHOST_EATEN then g\<lparr>g_state := GHOST_VULNERABLE\<rparr> else g)"

definition set_eaten :: "Ghost \<Rightarrow> Ghost" where
  "set_eaten g = g\<lparr>g_state := GHOST_EATEN\<rparr>"

definition current_speed :: "Ghost \<Rightarrow> rat" where
  "current_speed g =
     (if g_state g = GHOST_VULNERABLE then speed_vulnerable
      else if g_state g = GHOST_EATEN then speed_eaten
      else speed_normal)"

definition at_center :: "Ghost \<Rightarrow> bool" where
  "at_center g = centered (g_pos g)"

definition valid_neighbors :: "Maze \<Rightarrow> Ghost \<Rightarrow> bool \<Rightarrow> dir list" where
  "valid_neighbors m g avoid_reverse =
     (let (gx, gy) = round_tile (g_pos g)
      in filter (\<lambda>d. \<not> (avoid_reverse \<and> fst d = - fst (g_dir g) \<and> snd d = - snd (g_dir g))
                     \<and> in_bounds m (gx + fst d) (gy + snd d)
                     \<and> passable m (gx + fst d) (gy + snd d)) ALL_DIRS)"

definition target_tile :: "Maze \<Rightarrow> Ghost \<Rightarrow> tile \<Rightarrow> tile" where
  "target_tile m g player_tile =
     (if g_state g = GHOST_EATEN then house_pos m
      else if g_state g = GHOST_VULNERABLE then
        (let (px, py) = player_tile;
             far_x = (if px > width m div 2 then 0 else width m - 1);
             far_y = (if py > height m div 2 then 0 else height m - 1)
         in (far_x, far_y))
      else player_tile)"

text \<open>The greedy loop of \<^verbatim>\<open>Ghost._choose_dir\<close>; \<^verbatim>\<open>best_dist\<close> starts at
  \<^verbatim>\<open>math.inf\<close>, here \<open>None\<close>.\<close>

fun choose_loop :: "tile \<Rightarrow> tile \<Rightarrow> dir list \<Rightarrow> dir \<Rightarrow> int option \<Rightarrow> dir" where
  "choose_loop t target [] best best_dist = best"
| "choose_loop t target (d # ds) best best_dist =
     (let dist = manhattan (fst t + fst d, snd t + snd d) target
      in if (case best_dist of None \<Rightarrow> True | Some b \<Rightarrow> dist < b)
         then choose_loop t target ds d (Some dist)
         else choose_loop t target ds best best_dist)"

definition greedy_choose_dir :: "Ghost \<Rightarrow> dir list \<Rightarrow> tile \<Rightarrow> dir" where
  "greedy_choose_dir g choices target =
     (if choices = [] then g_dir g
      else choose_loop (round_tile (g_pos g)) target choices (hd choices) None)"

definition choose_dir :: "Ghost \<Rightarrow> dir list \<Rightarrow> tile \<Rightarrow> rng \<Rightarrow> dir \<times> rng" where
  "choose_dir g choices target r =
     (case g_class g of
        ChaserGhost \<Rightarrow> (greedy_choose_dir g choices target, r)
      | RandomGhost \<Rightarrow> (if choices = [] then (g_dir g, r) else choice r choices))"

text \<open>The list \<^verbatim>\<open>choices\<close> that \<^verbatim>\<open>Ghost.update\<close> passes to the chooser: the neighbours
  without the reverse, or all of them when there is no other.\<close>

definition candidates :: "Maze \<Rightarrow> Ghost \<Rightarrow> dir list" where
  "candidates m g =
     (if valid_neighbors m g True = [] then valid_neighbors m g False else valid_neighbors m g True)"

definition decide :: "Maze \<Rightarrow> tile \<Rightarrow> Ghost \<times> rng \<Rightarrow> Ghost \<times> rng" where
  "decide m player_tile gr =
     (if at_center (fst gr) then
        (case choose_dir (fst gr) (candidates m (fst gr)) (target_tile m (fst gr) player_tile) (snd gr)
         of (d, r') \<Rightarrow> ((fst gr)\<lparr>g_dir := d\<rparr>, r'))
      else gr)"

definition move :: "Ghost \<Rightarrow> Ghost" where
  "move g =
     (let speed = current_speed g
      in g\<lparr>g_pos := (fst (g_pos g) + of_int (fst (g_dir g)) * speed,
                      snd (g_pos g) + of_int (snd (g_dir g)) * speed)\<rparr>)"

definition revive :: "Maze \<Rightarrow> Ghost \<times> rng \<Rightarrow> Ghost \<times> rng" where
  "revive m gr =
     (if g_state (fst gr) = GHOST_EATEN \<and> at_center (fst gr)
         \<and> round_tile (g_pos (fst gr)) = house_pos m then
        (if valid_neighbors m ((fst gr)\<lparr>g_state := GHOST_NORMAL\<rparr>) False \<noteq> [] then
           (case choice (snd gr) (valid_neighbors m ((fst gr)\<lparr>g_state := GHOST_NORMAL\<rparr>) False)
            of (d, r') \<Rightarrow> ((fst gr)\<lparr>g_state := GHOST_NORMAL, g_dir := d\<rparr>, r'))
         else ((fst gr)\<lparr>g_state := GHOST_NORMAL\<rparr>, snd gr))
      else gr)"

text \<open>\<^verbatim>\<open>Ghost.update\<close>: decide at a tile centre, move, revert to normal at the house.\<close>

definition update_ghost :: "Maze \<Rightarrow> tile \<Rightarrow> Ghost \<times> rng \<Rightarrow> Ghost \<times> rng" where
  "update_ghost m player_tile gr = revive m (apfst move (decide m player_tile gr))"

section \<open>Game\<close>

record Game =
  maze :: Maze
  player :: Player
  ghosts :: "Ghost list"
  power_timer :: int
  running :: bool
  win :: bool

definition power_duration_sec :: int where "power_duration_sec = 7"

definition ljust :: "nat \<Rightarrow> string \<Rightarrow> string" where
  "ljust w r = r @ replicate (w - length r) CHR '' ''"

definition raw_layout :: "string list" where
  "raw_layout =
     [''#########################'',
      ''#P...........##.........#'',
      ''#.###.#####.##.#####.###'',
      ''#o# #.#   #.##.#   #.#o#'',
      ''#.###.#####.##.#####.###'',
      ''#.......................#'',
      ''#.###.##.########.##.###'',
      ''#.....##....H.....##....#'',
      ''#####.######..######.####'',
      ''    #.R    C  C    R.#   '',
      ''#####.######..######.####'',
      ''#.....##..........##....#'',
      ''#.###.##.########.##.###'',
      ''#o.....................o#'',
      ''#########################'']"

definition build_maze :: Maze where
  "build_maze =
     (let w = foldr max (map length raw_layout) 0
      in Maze_init (map (ljust w) raw_layout))"

text \<open>The first spawn gets a \<^verbatim>\<open>ChaserGhost\<close>, every later one a \<^verbatim>\<open>RandomGhost\<close>; each
  constructor draws its initial direction.\<close>

definition init_next :: "Ghost list \<times> rng \<Rightarrow> tile \<Rightarrow> Ghost list \<times> rng" where
  "init_next done st =
     apfst (\<lambda>g. fst done @ [g])
       (Ghost_init (if fst done = [] then ChaserGhost else RandomGhost) st (snd done))"

definition init_ghosts :: "tile list \<Rightarrow> rng \<Rightarrow> Ghost list \<times> rng" where
  "init_ghosts sts r = foldl init_next ([], r) sts"

definition Game_init :: "rng \<Rightarrow> Game \<times> rng" where
  "Game_init r =
     (let m = build_maze;
          (gs, r') = init_ghosts (ghost_starts m) r
      in (\<lparr>maze = m, player = Player_init (player_start m), ghosts = gs, power_timer = 0,
           running = True, win = False\<rparr>, r'))"

text \<open>One frame's events: whether a quit event arrived, and the pressed keys.\<close>

record events =
  quit :: bool
  pressed :: keys

definition handle_events :: "events \<Rightarrow> Game \<Rightarrow> Game" where
  "handle_events ev s =
     (let s1 = (if quit ev then s\<lparr>running := False\<rparr> else s)
      in s1\<lparr>player := handle_input (pressed ev) (player s1)\<rparr>)"

text \<open>\<^verbatim>\<open>Game._update\<close>, phase by phase. First the player moves and eats; a power pellet
  starts the power timer and makes the ghosts vulnerable.\<close>

definition player_phase :: "Game \<Rightarrow> Game" where
  "player_phase s =
     (let p1 = update_player (maze s) (player s);
          (m2, p2, pel, power) = eat_pellets (maze s) p1;
          s1 = s\<lparr>maze := m2, player := p2\<rparr>
      in if power > 0
         then s1\<lparr>power_timer := power_duration_sec * FPS, ghosts := map set_vulnerable (ghosts s1)\<rparr>
         else s1)"

text \<open>The loop \<^verbatim>\<open>for g in self.ghosts: g.update(player_tile)\<close>: the ghosts already
  updated and the generator are carried along.\<close>

definition update_next :: "Maze \<Rightarrow> tile \<Rightarrow> Ghost list \<times> rng \<Rightarrow> Ghost \<Rightarrow> Ghost list \<times> rng" where
  "update_next m pt done g = apfst (\<lambda>g'. fst done @ [g']) (update_ghost m pt (g, snd done))"

definition update_ghosts :: "Maze \<Rightarrow> tile \<Rightarrow> Ghost list \<Rightarrow> rng \<Rightarrow> Ghost list \<times> rng" where
  "update_ghosts m pt gs r = foldl (update_next m pt) ([], r) gs"

definition ghosts_phase :: "Game \<times> rng \<Rightarrow> Game \<times> rng" where
  "ghosts_phase sr =
     (case update_ghosts (maze (fst sr)) (round_tile (p_pos (player (fst sr)))) (ghosts (fst sr)) (snd sr)
      of (gs, r') \<Rightarrow> ((fst sr)\<lparr>ghosts := gs\<rparr>, r'))"

definition calm :: "Ghost \<Rightarrow> Ghost" where
  "calm g = (if g_state g = GHOST_VULNERABLE then g\<lparr>g_state := GHOST_NORMAL\<rparr> else g)"

definition timer_phase :: "Game \<Rightarrow> Game" where
  "timer_phase s =
     (if power_timer s > 0 then
        (let s1 = s\<lparr>power_timer := power_timer s - 1\<rparr>
         in if power_timer s1 = 0 then s1\<lparr>ghosts := map calm (ghosts s1)\<rparr> else s1)
      else s)"

text \<open>\<^verbatim>\<open>math.hypot(dx, dy) < TILE_SIZE * 0.6\<close> on integer pixel differences, compared
  through the squares (both sides are non-negative).\<close>

definition near :: "int \<times> int \<Rightarrow> int \<times> int \<Rightarrow> bool" where
  "near pp gp \<longleftrightarrow>
     (of_int ((fst pp - fst gp) * (fst pp - fst gp) + (snd pp - snd gp) * (snd pp - snd gp)) :: rat)
       < (of_int TILE_SIZE * (6 / 10)) * (of_int TILE_SIZE * (6 / 10))"

text \<open>The loop \<^verbatim>\<open>for gg in self.ghosts: gg.reset()\<close>.\<close>

definition reset_next :: "Ghost list \<times> rng \<Rightarrow> Ghost \<Rightarrow> Ghost list \<times> rng" where
  "reset_next done g = apfst (\<lambda>g'. fst done @ [g']) (reset g (snd done))"

definition reset_all :: "Ghost list \<Rightarrow> rng \<Rightarrow> Ghost list \<times> rng" where
  "reset_all gs r = foldl reset_next ([], r) gs"

text \<open>The loop of \<^verbatim>\<open>_check_collisions\<close>. A vulnerable ghost in reach is eaten for 200
  points; a normal one costs a life, and with a life left the player and all ghosts are
  put back and the power timer is cleared.\<close>

definition eat_ghost :: "nat \<Rightarrow> Game \<Rightarrow> Game" where
  "eat_ghost i s =
     s\<lparr>ghosts := (ghosts s)[i := set_eaten (ghosts s ! i)],
       player := (player s)\<lparr>p_score := p_score (player s) + 200\<rparr>\<rparr>"

definition lose_life :: "Game \<times> rng \<Rightarrow> Game \<times> rng" where
  "lose_life sr =
     (if p_lives (player (fst sr)) - 1 \<le> 0 then
        ((fst sr)\<lparr>player := (player (fst sr))\<lparr>p_lives := p_lives (player (fst sr)) - 1\<rparr>,
                  running := False\<rparr>, snd sr)
      else
        (case reset_all (ghosts (fst sr)) (snd sr) of (gs, r') \<Rightarrow>
           ((fst sr)\<lparr>player := (player (fst sr))
                        \<lparr>p_lives := p_lives (player (fst sr)) - 1,
                         p_pos := (of_int (fst (player_start (maze (fst sr)))),
                                   of_int (snd (player_start (maze (fst sr)))))\<rparr>,
                     ghosts := gs, power_timer := 0\<rparr>, r')))"

text \<open>The body of the loop for the ghost at index \<open>i\<close>: the response to a collision by
  the state of the ghost, taken when the ghost is in reach; \<open>pp\<close> is the player's pixel
  position, computed once before the loop.\<close>

definition respond :: "Game \<times> rng \<Rightarrow> nat \<Rightarrow> Game \<times> rng" where
  "respond sr i =
     (if g_state (ghosts (fst sr) ! i) = GHOST_VULNERABLE then apfst (eat_ghost i) sr
      else if g_state (ghosts (fst sr) ! i) = GHOST_EATEN then sr
      else lose_life sr)"

definition collide :: "int \<times> int \<Rightarrow> Game \<times> rng \<Rightarrow> nat \<Rightarrow> Game \<times> rng" where
  "collide pp sr i =
     (if near pp (grid_to_px (g_pos (ghosts (fst sr) ! i))) then respond sr i else sr)"

definition check_collisions :: "Game \<times> rng \<Rightarrow> Game \<times> rng" where
  "check_collisions sr =
     foldl (collide (grid_to_px (p_pos (player (fst sr))))) sr [0..<length (ghosts (fst sr))]"

definition win_phase :: "Game \<Rightarrow> Game" where
  "win_phase s =
     (if pellets (maze s) = {} \<and> power_pellets (maze s) = {}
      then s\<lparr>win := True, running := False\<rparr> else s)"

definition update :: "Game \<times> rng \<Rightarrow> Game \<times> rng" where
  "update sr =
     apfst win_phase (check_collisions (apfst timer_phase (ghosts_phase (apfst player_phase sr))))"

text \<open>One iteration of the loop of \<^verbatim>\<open>Game.run\<close>.\<close>

definition tick :: "events \<Rightarrow> Game \<times> rng \<Rightarrow> Game \<times> rng" where
  "tick ev sr = update (apfst (handle_events ev) sr)"

text \<open>The loop of \<^verbatim>\<open>Game.run\<close> over the events of successive frames, as long as the
  game is running.\<close>

fun run :: "events list \<Rightarrow> Game \<times> rng \<Rightarrow> Game \<times> rng" where
  "run [] sr = sr"
| "run (ev # evs) sr = (if running (fst sr) then run evs (tick ev sr) else sr)"

text \<open>The states the loop can be in: the initial one for some generator, and every state
  one iteration after a running one.\<close>

inductive reachable :: "Game \<times> rng \<Rightarrow> bool" where
  init: "reachable (Game_init r)"
| step: "reachable sr \<Longrightarrow> running (fst sr) \<Longrightarrow> reachable (tick ev sr)"

section \<open>Notions used in the statements\<close>

text \<open>The character of the layout at column \<open>x\<close> of row \<open>y\<close>, if there is one.\<close>

definition cell :: "string list \<Rightarrow> int \<Rightarrow> int \<Rightarrow> char option" where
  "cell lay x y =
     (if 0 \<le> x \<and> 0 \<le> y \<and> nat y < length lay \<and> nat x < length (lay ! nat y)
      then Some (lay ! nat y ! nat x) else None)"

text \<open>The spawn tiles, the last tile carrying a given mark, and the padded layout
  that \<^verbatim>\<open>_build_maze\<close> hands to the parser: the parser's results, field by field.\<close>

fun spawn_row :: "int \<Rightarrow> int \<Rightarrow> string \<Rightarrow> tile list" where
  "spawn_row y x [] = []"
| "spawn_row y x (c # cs) =
     (if c = CHR ''C'' \<or> c = CHR ''R'' then (x, y) # spawn_row y (x + 1) cs else spawn_row y (x + 1) cs)"

fun spawn_rows :: "int \<Rightarrow> string list \<Rightarrow> tile list" where
  "spawn_rows y [] = []"
| "spawn_rows y (row # rows) = spawn_row y 0 row @ spawn_rows (y + 1) rows"

fun mark_row :: "char \<Rightarrow> int \<Rightarrow> int \<Rightarrow> string \<Rightarrow> tile \<Rightarrow> tile" where
  "mark_row k y x [] t = t"
| "mark_row k y x (c # cs) t = mark_row k y (x + 1) cs (if c = k then (x, y) else t)"

fun mark_rows :: "char \<Rightarrow> int \<Rightarrow> string list \<Rightarrow> tile \<Rightarrow> tile" where
  "mark_rows k y [] t = t"
| "mark_rows k y (row # rows) t = mark_rows k (y + 1) rows (mark_row k y 0 row t)"

definition padded_layout :: "string list" where
  "padded_layout = map (ljust (foldr max (map length raw_layout) 0)) raw_layout"

text \<open>The distance the greedy chooser compares and the position of a direction in
  \<^verbatim>\<open>ALL_DIRS\<close>.\<close>

definition step_dist :: "Ghost \<Rightarrow> tile \<Rightarrow> dir \<Rightarrow> int" where
  "step_dist g target d =
     manhattan (fst (round_tile (g_pos g)) + fst d, snd (round_tile (g_pos g)) + snd d) target"

definition rank :: "dir \<Rightarrow> nat" where
  "rank d = (if d = UP then 0 else if d = DOWN then 1 else if d = LEFT then 2 else 3)"

text \<open>A coordinate that is a whole number of quarters of a tile.\<close>

definition quarter :: "rat \<Rightarrow> bool" where
  "quarter q \<longleftrightarrow> of_int \<lfloor>4 * q\<rfloor> = 4 * q"

definition on_quarter_grid :: "gridpos \<Rightarrow> bool" where
  "on_quarter_grid p \<longleftrightarrow> quarter (fst p) \<and> quarter (snd p)"

text \<open>The collision pass as the specification words it: which ghosts are in reach is
  settled for all of them on the positions at the start of the pass, and each ghost in
  reach then gets its response.\<close>

definition respond_if :: "bool list \<Rightarrow> Game \<times> rng \<Rightarrow> nat \<Rightarrow> Game \<times> rng" where
  "respond_if hits sr i = (if hits ! i then respond sr i else sr)"

definition independent_collisions :: "Game \<times> rng \<Rightarrow> Game \<times> rng" where
  "independent_collisions sr =
     foldl (respond_if (map (\<lambda>g. near (grid_to_px (p_pos (player (fst sr)))) (grid_to_px (g_pos g)))
                          (ghosts (fst sr))))
       sr [0..<length (ghosts (fst sr))]"

text \<open>A ghost put back on its home start, normal, with the direction a draw selects.\<close>

definition home_reset :: "nat \<Rightarrow> Ghost \<Rightarrow> Ghost" where
  "home_reset draw g =
     g\<lparr>g_pos := (of_int (fst (g_start g)), of_int (snd (g_start g))),
       g_dir := ALL_DIRS ! (draw mod length ALL_DIRS), g_state := GHOST_NORMAL\<rparr>"

text \<open>What holds during a collision pass without a reset: the ghosts stay where they are,
  and either the player is on the last life or no ghost in reach is normal.\<close>

definition pass_inv :: "Game \<times> rng \<Rightarrow> bool list \<Rightarrow> Game \<times> rng \<Rightarrow> bool" where
  "pass_inv sr hits sr' \<longleftrightarrow>
     map g_pos (ghosts (fst sr')) = map g_pos (ghosts (fst sr))
     \<and> (p_lives (player (fst sr')) \<le> 1
        \<or> (\<forall>j < length (ghosts (fst sr)). hits ! j \<longrightarrow> g_state (ghosts (fst sr') ! j) \<noteq> GHOST_NORMAL))"

section \<open>Example inputs\<close>

text \<open>A state in which the player is about to reach the power pellet at \<open>(1, 3)\<close> while
  the power timer still runs; a vulnerable pursuer with a tie between up and left; an
  eaten ghost one step left of the house tile.\<close>

definition repower_state :: Game where
  "repower_state =
     \<lparr>maze = build_maze,
      player = \<lparr>p_pos = (1, 11 / 4), p_dir = DOWN, p_next_dir = DOWN, p_lives = 3, p_score = 10\<rparr>,
      ghosts = [\<lparr>g_class = ChaserGhost, g_start = (6, 9), g_pos = (6, 9), g_dir = LEFT,
                 g_state = GHOST_NORMAL\<rparr>,
                \<lparr>g_class = RandomGhost, g_start = (11, 9), g_pos = (12, 8), g_dir = UP,
                 g_state = GHOST_EATEN\<rparr>,
                \<lparr>g_class = RandomGhost, g_start = (14, 9), g_pos = (14, 9), g_dir = UP,
                 g_state = GHOST_VULNERABLE\<rparr>],
      power_timer = 100, running = True, win = False\<rparr>"

definition tie_ghost :: Ghost where
  "tie_ghost = \<lparr>g_class = ChaserGhost, g_start = (6, 9), g_pos = (5, 7), g_dir = UP,
                g_state = GHOST_VULNERABLE\<rparr>"

definition homing_ghost :: Ghost where
  "homing_ghost = \<lparr>g_class = ChaserGhost, g_start = (6, 9), g_pos = (12 - 7 / 24, 7),
                   g_dir = RIGHT, g_state = GHOST_EATEN\<rparr>"


text \<open>Two normal ghosts on either side of the player; two vulnerable ghosts in reach and
  the only normal one far away.\<close>

definition crowd_state :: Game where
  "crowd_state =
     \<lparr>maze = build_maze,
      player = \<lparr>p_pos = (8, 5), p_dir = RIGHT, p_next_dir = RIGHT, p_lives = 3, p_score = 120\<rparr>,
      ghosts = [\<lparr>g_class = ChaserGhost, g_start = (6, 9), g_pos = (8 - 5 / 24, 5), g_dir = RIGHT,
                 g_state = GHOST_NORMAL\<rparr>,
                \<lparr>g_class = RandomGhost, g_start = (11, 9), g_pos = (8 + 5 / 24, 5), g_dir = LEFT,
                 g_state = GHOST_NORMAL\<rparr>,
                \<lparr>g_class = RandomGhost, g_start = (14, 9), g_pos = (14, 9), g_dir = UP,
                 g_state = GHOST_NORMAL\<rparr>,
                \<lparr>g_class = RandomGhost, g_start = (19, 9), g_pos = (20, 11), g_dir = DOWN,
                 g_state = GHOST_NORMAL\<rparr>],
      power_timer = 0, running = True, win = False\<rparr>"

definition feast_state :: Game where
  "feast_state =
     \<lparr>maze = build_maze,
      player = \<lparr>p_pos = (8, 5), p_dir = RIGHT, p_next_dir = RIGHT, p_lives = 3, p_score = 120\<rparr>,
      ghosts = [\<lparr>g_class = ChaserGhost, g_start = (6, 9), g_pos = (8 - 7 / 48, 5), g_dir = RIGHT,
                 g_state = GHOST_VULNERABLE\<rparr>,
                \<lparr>g_class = RandomGhost, g_start = (11, 9), g_pos = (11, 5), g_dir = LEFT,
                 g_state = GHOST_NORMAL\<rparr>,
                \<lparr>g_class = RandomGhost, g_start = (14, 9), g_pos = (8, 5 + 7 / 48), g_dir = UP,
                 g_state = GHOST_VULNERABLE\<rparr>,
                \<lparr>g_class = RandomGhost, g_start = (19, 9), g_pos = (20, 11), g_dir = DOWN,
                 g_state = GHOST_EATEN\<rparr>],
      power_timer = 37, running = True, win = False\<rparr>"


section \<open>A run of the game\<close>

text \<open>The events of a frame in which one arrow key is held down.\<close>

definition hold :: "dir \<Rightarrow> events" where
  "hold d = \<lparr>quit = False, pressed = \<lparr>K_UP = (d = UP), K_DOWN = (d = DOWN), K_LEFT = (d = LEFT),
      K_RIGHT = (d = RIGHT)\<rparr>\<rparr>"

text \<open>A run of 57 frames: the draws of the generator, the keys held, and the state of the
  game after 8, 14, 20, 26, 32, 38, 44, 51 and 57 frames.\<close>

definition wall_draws :: "nat list" where
  "wall_draws = [0, 3, 1, 0, 0, 0, 1, 0, 1, 0, 0, 0, 0, 0, 0, 0, 0, 1, 0, 0, 0, 0, 0, 0, 2]"

definition wall_events :: "events list" where
  "wall_events = replicate 8 (hold DOWN) @ replicate 36 (hold RIGHT) @ replicate 13 (hold DOWN)"

definition wall_8 :: "Game \<times> rng" where
  "wall_8 =
     (\<lparr>maze = build_maze
          \<lparr>pellets := pellets build_maze - {(1, 2)},
           power_pellets := power_pellets build_maze - {(1, 3)}\<rparr>,
       player = \<lparr>p_pos = (1, 3), p_dir = DOWN, p_next_dir = DOWN, p_lives = 3,
                 p_score = 60\<rparr>,
       ghosts = [\<lparr>g_class = ChaserGhost, g_start = (6, 9), g_pos = (119 / 24, 17 / 2),
                  g_dir = UP, g_state = GHOST_VULNERABLE\<rparr>,
                 \<lparr>g_class = RandomGhost, g_start = (11, 9), g_pos = (289 / 24, 17 / 2),
                  g_dir = UP, g_state = GHOST_VULNERABLE\<rparr>,
                 \<lparr>g_class = RandomGhost, g_start = (14, 9), g_pos = (311 / 24, 19 / 2),
                  g_dir = DOWN, g_state = GHOST_VULNERABLE\<rparr>,
                 \<lparr>g_class = RandomGhost, g_start = (19, 9), g_pos = (481 / 24, 17 / 2),
                  g_dir = UP, g_state = GHOST_VULNERABLE\<rparr>],
       power_timer = 418, running = True, win = False\<rparr>,
      replay [0, 0, 0, 0, 0, 0, 0, 1, 0, 0, 0, 0, 0, 0, 2])"

definition wall_14 :: "Game \<times> rng" where
  "wall_14 =
     (\<lparr>maze = build_maze
          \<lparr>pellets := pellets build_maze - {(1, 2)} - {(1, 4)},
           power_pellets := power_pellets build_maze - {(1, 3)}\<rparr>,
       player = \<lparr>p_pos = (1, 9 / 2), p_dir = DOWN, p_next_dir = RIGHT, p_lives = 3,
                 p_score = 70\<rparr>,
       ghosts = [\<lparr>g_class = ChaserGhost, g_start = (6, 9), g_pos = (119 / 24, 61 / 8),
                  g_dir = UP, g_state = GHOST_VULNERABLE\<rparr>,
                 \<lparr>g_class = RandomGhost, g_start = (11, 9), g_pos = (289 / 24, 61 / 8),
                  g_dir = UP, g_state = GHOST_VULNERABLE\<rparr>,
                 \<lparr>g_class = RandomGhost, g_start = (14, 9), g_pos = (311 / 24, 83 / 8),
                  g_dir = DOWN, g_state = GHOST_VULNERABLE\<rparr>,
                 \<lparr>g_class = RandomGhost, g_start = (19, 9), g_pos = (481 / 24, 61 / 8),
                  g_dir = UP, g_state = GHOST_VULNERABLE\<rparr>],
       power_timer = 412, running = True, win = False\<rparr>,
      replay [0, 1, 0, 0, 0, 0, 0, 0, 2])"

definition wall_20 :: "Game \<times> rng" where
  "wall_20 =
     (\<lparr>maze = build_maze
          \<lparr>pellets := pellets build_maze - {(1, 2)} - {(1, 4)} - {(1, 5)} - {(2, 5)},
           power_pellets := power_pellets build_maze - {(1, 3)}\<rparr>,
       player = \<lparr>p_pos = (2, 5), p_dir = RIGHT, p_next_dir = RIGHT, p_lives = 3,
                 p_score = 90\<rparr>,
       ghosts = [\<lparr>g_class = ChaserGhost, g_start = (6, 9), g_pos = (119 / 24, 27 / 4),
                  g_dir = UP, g_state = GHOST_VULNERABLE\<rparr>,
                 \<lparr>g_class = RandomGhost, g_start = (11, 9), g_pos = (47 / 4, 169 / 24),
                  g_dir = LEFT, g_state = GHOST_VULNERABLE\<rparr>,
                 \<lparr>g_class = RandomGhost, g_start = (14, 9), g_pos = (53 / 4, 263 / 24),
                  g_dir = RIGHT, g_state = GHOST_VULNERABLE\<rparr>,
                 \<lparr>g_class = RandomGhost, g_start = (19, 9), g_pos = (481 / 24, 27 / 4),
                  g_dir = UP, g_state = GHOST_VULNERABLE\<rparr>],
       power_timer = 406, running = True, win = False\<rparr>,
      replay [0, 0, 0, 0, 0, 2])"

definition wall_26 :: "Game \<times> rng" where
  "wall_26 =
     (\<lparr>maze = build_maze
          \<lparr>pellets := pellets build_maze - {(1, 2)} - {(1, 4)} - {(1, 5)} - {(2, 5)} - {(3, 5)}
               - {(4, 5)},
           power_pellets := power_pellets build_maze - {(1, 3)}\<rparr>,
       player = \<lparr>p_pos = (7 / 2, 5), p_dir = RIGHT, p_next_dir = RIGHT, p_lives = 3,
                 p_score = 110\<rparr>,
       ghosts = [\<lparr>g_class = ChaserGhost, g_start = (6, 9), g_pos = (119 / 24, 47 / 8),
                  g_dir = UP, g_state = GHOST_VULNERABLE\<rparr>,
                 \<lparr>g_class = RandomGhost, g_start = (11, 9), g_pos = (87 / 8, 169 / 24),
                  g_dir = LEFT, g_state = GHOST_VULNERABLE\<rparr>,
                 \<lparr>g_class = RandomGhost, g_start = (14, 9), g_pos = (113 / 8, 263 / 24),
                  g_dir = RIGHT, g_state = GHOST_VULNERABLE\<rparr>,
                 \<lparr>g_class = RandomGhost, g_start = (19, 9), g_pos = (481 / 24, 47 / 8),
                  g_dir = UP, g_state = GHOST_VULNERABLE\<rparr>],
       power_timer = 400, running = True, win = False\<rparr>,
      replay [0, 0, 2])"

definition wall_32 :: "Game \<times> rng" where
  "wall_32 =
     (\<lparr>maze = build_maze
          \<lparr>pellets := pellets build_maze - {(1, 2)} - {(1, 4)} - {(1, 5)} - {(2, 5)} - {(3, 5)}
               - {(4, 5)} - {(5, 5)},
           power_pellets := power_pellets build_maze - {(1, 3)}\<rparr>,
       player = \<lparr>p_pos = (5, 5), p_dir = RIGHT, p_next_dir = RIGHT, p_lives = 3,
                 p_score = 320\<rparr>,
       ghosts = [\<lparr>g_class = ChaserGhost, g_start = (6, 9), g_pos = (21 / 4, 5),
                  g_dir = RIGHT, g_state = GHOST_EATEN\<rparr>,
                 \<lparr>g_class = RandomGhost, g_start = (11, 9), g_pos = (10, 169 / 24),
                  g_dir = LEFT, g_state = GHOST_VULNERABLE\<rparr>,
                 \<lparr>g_class = RandomGhost, g_start = (14, 9), g_pos = (15, 263 / 24),
                  g_dir = RIGHT, g_state = GHOST_VULNERABLE\<rparr>,
                 \<lparr>g_class = RandomGhost, g_start = (19, 9), g_pos = (481 / 24, 5),
                  g_dir = UP, g_state = GHOST_VULNERABLE\<rparr>],
       power_timer = 394, running = True, win = False\<rparr>,
      replay [0, 0, 2])"

definition wall_38 :: "Game \<times> rng" where
  "wall_38 =
     (\<lparr>maze = build_maze
          \<lparr>pellets := pellets build_maze - {(1, 2)} - {(1, 4)} - {(1, 5)} - {(2, 5)} - {(3, 5)}
               - {(4, 5)} - {(5, 5)} - {(6, 5)},
           power_pellets := power_pellets build_maze - {(1, 3)}\<rparr>,
       player = \<lparr>p_pos = (13 / 2, 5), p_dir = RIGHT, p_next_dir = RIGHT, p_lives = 3,
                 p_score = 330\<rparr>,
       ghosts = [\<lparr>g_class = ChaserGhost, g_start = (6, 9), g_pos = (7, 5),
                  g_dir = RIGHT, g_state = GHOST_EATEN\<rparr>,
                 \<lparr>g_class = RandomGhost, g_start = (11, 9), g_pos = (73 / 8, 169 / 24),
                  g_dir = LEFT, g_state = GHOST_VULNERABLE\<rparr>,
                 \<lparr>g_class = RandomGhost, g_start = (14, 9), g_pos = (127 / 8, 263 / 24),
                  g_dir = RIGHT, g_state = GHOST_VULNERABLE\<rparr>,
                 \<lparr>g_class = RandomGhost, g_start = (19, 9), g_pos = (251 / 12, 5),
                  g_dir = RIGHT, g_state = GHOST_VULNERABLE\<rparr>],
       power_timer = 388, running = True, win = False\<rparr>,
      replay [])"

definition wall_44 :: "Game \<times> rng" where
  "wall_44 =
     (\<lparr>maze = build_maze
          \<lparr>pellets := pellets build_maze - {(1, 2)} - {(1, 4)} - {(1, 5)} - {(2, 5)} - {(3, 5)}
               - {(4, 5)} - {(5, 5)} - {(6, 5)} - {(7, 5)} - {(8, 5)},
           power_pellets := power_pellets build_maze - {(1, 3)}\<rparr>,
       player = \<lparr>p_pos = (8, 5), p_dir = RIGHT, p_next_dir = RIGHT, p_lives = 3,
                 p_score = 350\<rparr>,
       ghosts = [\<lparr>g_class = ChaserGhost, g_start = (6, 9), g_pos = (35 / 4, 5),
                  g_dir = RIGHT, g_state = GHOST_EATEN\<rparr>,
                 \<lparr>g_class = RandomGhost, g_start = (11, 9), g_pos = (33 / 4, 169 / 24),
                  g_dir = LEFT, g_state = GHOST_VULNERABLE\<rparr>,
                 \<lparr>g_class = RandomGhost, g_start = (14, 9), g_pos = (67 / 4, 263 / 24),
                  g_dir = RIGHT, g_state = GHOST_VULNERABLE\<rparr>,
                 \<lparr>g_class = RandomGhost, g_start = (19, 9), g_pos = (523 / 24, 5),
                  g_dir = RIGHT, g_state = GHOST_VULNERABLE\<rparr>],
       power_timer = 382, running = True, win = False\<rparr>,
      replay [])"

definition wall_51 :: "Game \<times> rng" where
  "wall_51 =
     (\<lparr>maze = build_maze
          \<lparr>pellets := pellets build_maze - {(1, 2)} - {(1, 4)} - {(1, 5)} - {(2, 5)} - {(3, 5)}
               - {(4, 5)} - {(5, 5)} - {(6, 5)} - {(7, 5)} - {(8, 5)}
               - {(8, 6)} - {(8, 7)},
           power_pellets := power_pellets build_maze - {(1, 3)}\<rparr>,
       player = \<lparr>p_pos = (8, 27 / 4), p_dir = DOWN, p_next_dir = DOWN, p_lives = 3,
                 p_score = 570\<rparr>,
       ghosts = [\<lparr>g_class = ChaserGhost, g_start = (6, 9), g_pos = (259 / 24, 5),
                  g_dir = RIGHT, g_state = GHOST_EATEN\<rparr>,
                 \<lparr>g_class = RandomGhost, g_start = (11, 9), g_pos = (191 / 24, 289 / 48),
                  g_dir = UP, g_state = GHOST_EATEN\<rparr>,
                 \<lparr>g_class = RandomGhost, g_start = (14, 9), g_pos = (409 / 24, 187 / 16),
                  g_dir = DOWN, g_state = GHOST_VULNERABLE\<rparr>,
                 \<lparr>g_class = RandomGhost, g_start = (19, 9), g_pos = (365 / 16, 5),
                  g_dir = RIGHT, g_state = GHOST_VULNERABLE\<rparr>],
       power_timer = 375, running = True, win = False\<rparr>,
      replay [])"

definition wall_57 :: "Game \<times> rng" where
  "wall_57 =
     (\<lparr>maze = build_maze
          \<lparr>pellets := pellets build_maze - {(1, 2)} - {(1, 4)} - {(1, 5)} - {(2, 5)} - {(3, 5)}
               - {(4, 5)} - {(5, 5)} - {(6, 5)} - {(7, 5)} - {(8, 5)}
               - {(8, 6)} - {(8, 7)},
           power_pellets := power_pellets build_maze - {(1, 3)}\<rparr>,
       player = \<lparr>p_pos = (8, 7), p_dir = STOP, p_next_dir = DOWN, p_lives = 3,
                 p_score = 570\<rparr>,
       ghosts = [\<lparr>g_class = ChaserGhost, g_start = (6, 9), g_pos = (301 / 24, 5),
                  g_dir = RIGHT, g_state = GHOST_EATEN\<rparr>,
                 \<lparr>g_class = RandomGhost, g_start = (11, 9), g_pos = (191 / 24, 205 / 48),
                  g_dir = UP, g_state = GHOST_EATEN\<rparr>,
                 \<lparr>g_class = RandomGhost, g_start = (14, 9), g_pos = (409 / 24, 201 / 16),
                  g_dir = DOWN, g_state = GHOST_VULNERABLE\<rparr>,
                 \<lparr>g_class = RandomGhost, g_start = (19, 9), g_pos = (1067 / 48, 5),
                  g_dir = LEFT, g_state = GHOST_VULNERABLE\<rparr>],
       power_timer = 369, running = True, win = False\<rparr>,
      replay [])"


section \<open>The maze parser\<close>

lemma parse_cell_fixed [simp]:
  "layout (parse_cell x y ch m) = layout m"
  "height (parse_cell x y ch m) = height m"
  "width (parse_cell x y ch m) = width m"
  by (simp_all add: parse_cell_def)

lemma parse_cell_walls [simp]:
  "walls (parse_cell x y ch m) = (if ch = CHR ''#'' then insert (x, y) (walls m) else walls m)"
  by (simp add: parse_cell_def)

lemma parse_cell_pellets [simp]:
  "pellets (parse_cell x y ch m) = (if ch = CHR ''.'' then insert (x, y) (pellets m) else pellets m)"
  by (simp add: parse_cell_def)

lemma parse_cell_power [simp]:
  "power_pellets (parse_cell x y ch m) =
     (if ch = CHR ''o'' then insert (x, y) (power_pellets m) else power_pellets m)"
  by (simp add: parse_cell_def)

lemma parse_cell_start [simp]:
  "player_start (parse_cell x y ch m) = (if ch = CHR ''P'' then (x, y) else player_start m)"
  by (simp add: parse_cell_def)

lemma parse_row_fixed [simp]:
  "layout (parse_row y x cs m) = layout m"
  "height (parse_row y x cs m) = height m"
  "width (parse_row y x cs m) = width m"
  by (induction cs arbitrary: x m) simp_all

lemma parse_rows_fixed [simp]:
  "layout (parse_rows y rows m) = layout m"
  "height (parse_rows y rows m) = height m"
  "width (parse_rows y rows m) = width m"
  by (induction rows arbitrary: y m) simp_all

lemma nth_shift: "x < a \<Longrightarrow> (c # cs) ! nat (a - x) = cs ! nat (a - (x + 1))"
proof -
  assume "x < a"
  then have "nat (a - x) = Suc (nat (a - (x + 1)))" by simp
  then show ?thesis by simp
qed

lemma parse_row_walls:
  "(a, b) \<in> walls (parse_row y x cs m) \<longleftrightarrow>
     (a, b) \<in> walls m \<or> (b = y \<and> x \<le> a \<and> nat (a - x) < length cs \<and> cs ! nat (a - x) = CHR ''#'')"
proof (induction cs arbitrary: x m)
  case Nil
  then show ?case by simp
next
  case (Cons c cs)
  have unfold: "(a, b) \<in> walls (parse_row y x (c # cs) m) \<longleftrightarrow>
      (a, b) \<in> walls (parse_cell x y c m) \<or>
      (b = y \<and> x + 1 \<le> a \<and> nat (a - (x + 1)) < length cs \<and> cs ! nat (a - (x + 1)) = CHR ''#'')"
    by (simp add: Cons.IH)
  show ?case
  proof (cases "a = x")
    case True
    then show ?thesis unfolding unfold by auto
  next
    case False
    then show ?thesis unfolding unfold using nth_shift [of x a c cs] by auto
  qed
qed

lemma parse_row_pellets:
  "(a, b) \<in> pellets (parse_row y x cs m) \<longleftrightarrow>
     (a, b) \<in> pellets m \<or> (b = y \<and> x \<le> a \<and> nat (a - x) < length cs \<and> cs ! nat (a - x) = CHR ''.'')"
proof (induction cs arbitrary: x m)
  case Nil
  then show ?case by simp
next
  case (Cons c cs)
  have unfold: "(a, b) \<in> pellets (parse_row y x (c # cs) m) \<longleftrightarrow>
      (a, b) \<in> pellets (parse_cell x y c m) \<or>
      (b = y \<and> x + 1 \<le> a \<and> nat (a - (x + 1)) < length cs \<and> cs ! nat (a - (x + 1)) = CHR ''.'')"
    by (simp add: Cons.IH)
  show ?case
  proof (cases "a = x")
    case True
    then show ?thesis unfolding unfold by auto
  next
    case False
    then show ?thesis unfolding unfold using nth_shift [of x a c cs] by auto
  qed
qed

lemma parse_row_power:
  "(a, b) \<in> power_pellets (parse_row y x cs m) \<longleftrightarrow>
     (a, b) \<in> power_pellets m \<or> (b = y \<and> x \<le> a \<and> nat (a - x) < length cs \<and> cs ! nat (a - x) = CHR ''o'')"
proof (induction cs arbitrary: x m)
  case Nil
  then show ?case by simp
next
  case (Cons c cs)
  have unfold: "(a, b) \<in> power_pellets (parse_row y x (c # cs) m) \<longleftrightarrow>
      (a, b) \<in> power_pellets (parse_cell x y c m) \<or>
      (b = y \<and> x + 1 \<le> a \<and> nat (a - (x + 1)) < length cs \<and> cs ! nat (a - (x + 1)) = CHR ''o'')"
    by (simp add: Cons.IH)
  show ?case
  proof (cases "a = x")
    case True
    then show ?thesis unfolding unfold by auto
  next
    case False
    then show ?thesis unfolding unfold using nth_shift [of x a c cs] by auto
  qed
qed

lemma parse_rows_walls:
  "(a, b) \<in> walls (parse_rows y rows m) \<longleftrightarrow>
     (a, b) \<in> walls m \<or> (y \<le> b \<and> cell rows a (b - y) = Some CHR ''#'')"
proof (induction rows arbitrary: y m)
  case Nil
  then show ?case by (simp add: cell_def)
next
  case (Cons row rows)
  have unfold: "(a, b) \<in> walls (parse_rows y (row # rows) m) \<longleftrightarrow>
      (a, b) \<in> walls (parse_row y 0 row m) \<or>
      (y + 1 \<le> b \<and> cell rows a (b - (y + 1)) = Some CHR ''#'')"
    by (simp add: Cons.IH)
  show ?case
  proof (cases "b = y")
    case True
    then show ?thesis unfolding unfold by (auto simp: parse_row_walls cell_def)
  next
    case False
    then show ?thesis unfolding unfold using nth_shift [of y b row rows]
      by (auto simp: parse_row_walls cell_def)
  qed
qed

lemma parse_rows_pellets:
  "(a, b) \<in> pellets (parse_rows y rows m) \<longleftrightarrow>
     (a, b) \<in> pellets m \<or> (y \<le> b \<and> cell rows a (b - y) = Some CHR ''.'')"
proof (induction rows arbitrary: y m)
  case Nil
  then show ?case by (simp add: cell_def)
next
  case (Cons row rows)
  have unfold: "(a, b) \<in> pellets (parse_rows y (row # rows) m) \<longleftrightarrow>
      (a, b) \<in> pellets (parse_row y 0 row m) \<or>
      (y + 1 \<le> b \<and> cell rows a (b - (y + 1)) = Some CHR ''.'')"
    by (simp add: Cons.IH)
  show ?case
  proof (cases "b = y")
    case True
    then show ?thesis unfolding unfold by (auto simp: parse_row_pellets cell_def)
  next
    case False
    then show ?thesis unfolding unfold using nth_shift [of y b row rows]
      by (auto simp: parse_row_pellets cell_def)
  qed
qed

lemma parse_rows_power:
  "(a, b) \<in> power_pellets (parse_rows y rows m) \<longleftrightarrow>
     (a, b) \<in> power_pellets m \<or> (y \<le> b \<and> cell rows a (b - y) = Some CHR ''o'')"
proof (induction rows arbitrary: y m)
  case Nil
  then show ?case by (simp add: cell_def)
next
  case (Cons row rows)
  have unfold: "(a, b) \<in> power_pellets (parse_rows y (row # rows) m) \<longleftrightarrow>
      (a, b) \<in> power_pellets (parse_row y 0 row m) \<or>
      (y + 1 \<le> b \<and> cell rows a (b - (y + 1)) = Some CHR ''o'')"
    by (simp add: Cons.IH)
  show ?case
  proof (cases "b = y")
    case True
    then show ?thesis unfolding unfold by (auto simp: parse_row_power cell_def)
  next
    case False
    then show ?thesis unfolding unfold using nth_shift [of y b row rows]
      by (auto simp: parse_row_power cell_def)
  qed
qed

lemma Maze_init_walls: "(a, b) \<in> walls (Maze_init lay) \<longleftrightarrow> cell lay a b = Some CHR ''#''"
  by (simp add: Maze_init_def parse_def Let_def parse_rows_walls cell_def)

lemma Maze_init_pellets: "(a, b) \<in> pellets (Maze_init lay) \<longleftrightarrow> cell lay a b = Some CHR ''.''"
  by (simp add: Maze_init_def parse_def Let_def parse_rows_pellets cell_def)

lemma Maze_init_power: "(a, b) \<in> power_pellets (Maze_init lay) \<longleftrightarrow> cell lay a b = Some CHR ''o''"
  by (simp add: Maze_init_def parse_def Let_def parse_rows_power cell_def)

lemma Maze_init_size:
  "height (Maze_init lay) = int (length lay)"
  "width (Maze_init lay) = (if lay = [] then 0 else int (length (hd lay)))"
  by (simp_all add: Maze_init_def parse_def Let_def)

lemma parse_row_no_spawn:
  "CHR ''P'' \<notin> set cs \<Longrightarrow> player_start (parse_row y x cs m) = player_start m"
  by (induction cs arbitrary: x m) auto

lemma parse_rows_no_spawn:
  "\<forall>row \<in> set rows. CHR ''P'' \<notin> set row \<Longrightarrow> player_start (parse_rows y rows m) = player_start m"
  by (induction rows arbitrary: y m) (auto simp: parse_row_no_spawn)


lemma parse_cell_spawns [simp]:
  "ghost_starts (parse_cell x y ch m) =
     (if ch = CHR ''C'' \<or> ch = CHR ''R'' then ghost_starts m @ [(x, y)] else ghost_starts m)"
  by (simp add: parse_cell_def)

lemma parse_cell_house [simp]:
  "house_pos (parse_cell x y ch m) = (if ch = CHR ''H'' then (x, y) else house_pos m)"
  by (simp add: parse_cell_def)

lemma parse_row_spawns: "ghost_starts (parse_row y x cs m) = ghost_starts m @ spawn_row y x cs"
  by (induction cs arbitrary: x m) simp_all

lemma parse_rows_spawns: "ghost_starts (parse_rows y rows m) = ghost_starts m @ spawn_rows y rows"
  by (induction rows arbitrary: y m) (simp_all add: parse_row_spawns)

lemma parse_row_start: "player_start (parse_row y x cs m) = mark_row CHR ''P'' y x cs (player_start m)"
  by (induction cs arbitrary: x m) simp_all

lemma parse_rows_start: "player_start (parse_rows y rows m) = mark_rows CHR ''P'' y rows (player_start m)"
  by (induction rows arbitrary: y m) (simp_all add: parse_row_start)

lemma parse_row_house: "house_pos (parse_row y x cs m) = mark_row CHR ''H'' y x cs (house_pos m)"
  by (induction cs arbitrary: x m) simp_all

lemma parse_rows_house: "house_pos (parse_rows y rows m) = mark_rows CHR ''H'' y rows (house_pos m)"
  by (induction rows arbitrary: y m) (simp_all add: parse_row_house)

lemma padded: "padded_layout =
     [''#########################'',
      ''#P...........##.........#'',
      ''#.###.#####.##.#####.### '',
      ''#o# #.#   #.##.#   #.#o# '',
      ''#.###.#####.##.#####.### '',
      ''#.......................#'',
      ''#.###.##.########.##.### '',
      ''#.....##....H.....##....#'',
      ''#####.######..######.####'',
      ''    #.R    C  C    R.#   '',
      ''#####.######..######.####'',
      ''#.....##..........##....#'',
      ''#.###.##.########.##.### '',
      ''#o.....................o#'',
      ''#########################'']"
  by (simp add: padded_layout_def raw_layout_def ljust_def)

lemma build_maze_eq: "build_maze = Maze_init padded_layout"
  by (simp add: build_maze_def padded_layout_def Let_def)

lemma build_maze_size: "width build_maze = 25" "height build_maze = 15"
  by (simp_all add: build_maze_eq Maze_init_size padded)

lemma build_maze_ghost_starts: "ghost_starts build_maze = [(6, 9), (11, 9), (14, 9), (19, 9)]"
  by (simp add: build_maze_eq Maze_init_def parse_def Let_def parse_rows_spawns padded)

lemma build_maze_player_start: "player_start build_maze = (1, 1)"
  by (simp add: build_maze_eq Maze_init_def parse_def Let_def parse_rows_start padded)

lemma build_maze_house_pos: "house_pos build_maze = (12, 7)"
  by (simp add: build_maze_eq Maze_init_def parse_def Let_def parse_rows_house padded)

lemma build_maze_walls: "(a, b) \<in> walls build_maze \<longleftrightarrow> cell padded_layout a b = Some CHR ''#''"
  by (simp add: build_maze_eq Maze_init_walls)

lemma build_maze_pellets: "(a, b) \<in> pellets build_maze \<longleftrightarrow> cell padded_layout a b = Some CHR ''.''"
  by (simp add: build_maze_eq Maze_init_pellets)

lemma build_maze_power: "(a, b) \<in> power_pellets build_maze \<longleftrightarrow> cell padded_layout a b = Some CHR ''o''"
  by (simp add: build_maze_eq Maze_init_power)

lemma padded_rows:
  "padded_layout ! 0 = ''#########################''"
  "padded_layout ! Suc 0 = ''#P...........##.........#''"
  "padded_layout ! 2 = ''#.###.#####.##.#####.### ''"
  "padded_layout ! 3 = ''#o# #.#   #.##.#   #.#o# ''"
  "padded_layout ! 4 = ''#.###.#####.##.#####.### ''"
  "padded_layout ! 5 = ''#.......................#''"
  "padded_layout ! 6 = ''#.###.##.########.##.### ''"
  "padded_layout ! 7 = ''#.....##....H.....##....#''"
  "padded_layout ! 8 = ''#####.######..######.####''"
  "padded_layout ! 9 = ''    #.R    C  C    R.#   ''"
  "padded_layout ! 10 = ''#####.######..######.####''"
  "padded_layout ! 11 = ''#.....##..........##....#''"
  "padded_layout ! 12 = ''#.###.##.########.##.### ''"
  "padded_layout ! 13 = ''#o.....................o#''"
  "padded_layout ! 14 = ''#########################''"
  by (simp_all add: padded)

lemma cell_padded:
  "cell padded_layout x y =
     (if 0 \<le> x \<and> x < 25 \<and> 0 \<le> y \<and> y < 15 then Some (padded_layout ! nat y ! nat x) else None)"
proof -
  have len: "length padded_layout = 15" by (simp add: padded)
  have row: "\<forall>row \<in> set padded_layout. length row = 25" by (simp add: padded)
  have "nat y < 15 \<Longrightarrow> length (padded_layout ! nat y) = 25"
    using row len by (metis nth_mem)
  then show ?thesis using len by (auto simp: cell_def)
qed

lemmas maze_facts = build_maze_size build_maze_ghost_starts build_maze_player_start
  build_maze_house_pos build_maze_walls build_maze_pellets build_maze_power cell_padded padded_rows

lemmas const_defs = TILE_SIZE_def FPS_def UP_def DOWN_def LEFT_def RIGHT_def STOP_def ALL_DIRS_def

section \<open>Evaluating at concrete inputs\<close>

lemma floor_rat_numeral [simp]:
  "\<lfloor>(numeral a :: rat) / numeral b\<rfloor> = numeral a div numeral b"
  "\<lfloor>- ((numeral a :: rat) / numeral b)\<rfloor> = - numeral a div numeral b"
  "\<lfloor>(1 :: rat) / numeral b\<rfloor> = 1 div numeral b"
  "\<lfloor>- ((1 :: rat) / numeral b)\<rfloor> = - 1 div numeral b"
  using floor_divide_of_int_eq [of "numeral a" "numeral b", where ?'a = rat]
    floor_divide_of_int_eq [of "- numeral a" "numeral b", where ?'a = rat]
    floor_divide_of_int_eq [of 1 "numeral b", where ?'a = rat]
    floor_divide_of_int_eq [of "- 1" "numeral b", where ?'a = rat]
  by simp_all

lemmas round_defs = round_tile_def py_round_def centered_def Let_def

lemmas look_defs = in_bounds_def passable_def maze_facts

lemmas player_defs = update_player_def apply_next_dir_def stop_if_blocked_def
  move_player_def clamp_inside_walls_def can_move_def is_centered_on_tile_def player_speed_def
  eat_pellets_def handle_input_def

lemma choice_replay:
  "choice (replay (x # xs)) ys = (ys ! (x mod length ys), replay xs)"
  "choice (replay []) ys = (ys ! 0, replay [])"
  by (auto simp: choice_def replay_def fun_eq_iff)

lemmas ghost_defs = update_ghost_def decide_def move_def revive_def candidates_def
  valid_neighbors_def target_tile_def choose_dir_def greedy_choose_dir_def manhattan_def
  at_center_def current_speed_def speed_normal_def speed_vulnerable_def speed_eaten_def
  set_vulnerable_def set_eaten_def reset_def choice_replay calm_def update_ghosts_def
  update_next_def reset_all_def reset_next_def

lemmas game_defs = tick_def update_def handle_events_def player_phase_def ghosts_phase_def
  timer_phase_def check_collisions_def collide_def respond_def eat_ghost_def lose_life_def
  near_def grid_to_px_def py_int_def power_duration_sec_def

section \<open>The greedy chooser\<close>

lemma choose_loop_running_min:
  fixes f :: "dir \<Rightarrow> int"
  assumes f: "\<And>d. f d = manhattan (fst t + fst d, snd t + snd d) target"
  shows "(choose_loop t target ds best (Some b) = best \<and> (\<forall>d \<in> set ds. b \<le> f d)) \<or>
     (\<exists>pre post. ds = pre @ choose_loop t target ds best (Some b) # post
        \<and> f (choose_loop t target ds best (Some b)) < b
        \<and> (\<forall>e \<in> set pre. f (choose_loop t target ds best (Some b)) < f e)
        \<and> (\<forall>e \<in> set post. f (choose_loop t target ds best (Some b)) \<le> f e))"
proof (induction ds arbitrary: best b)
  case Nil
  then show ?case by simp
next
  case (Cons d ds)
  show ?case
  proof (cases "f d < b")
    case True
    let ?r = "choose_loop t target ds d (Some (f d))"
    have r: "choose_loop t target (d # ds) best (Some b) = ?r"
      using True by (simp add: f [symmetric])
    from Cons.IH [of d "f d"] show ?thesis
    proof
      assume "?r = d \<and> (\<forall>e \<in> set ds. f d \<le> f e)"
      then have "d # ds = [] @ ?r # ds \<and> f ?r < b \<and> (\<forall>e \<in> set ds. f ?r \<le> f e)"
        using True by simp
      then show ?thesis unfolding r by (metis empty_iff list.set(1))
    next
      assume "\<exists>pre post. ds = pre @ ?r # post \<and> f ?r < f d
          \<and> (\<forall>e \<in> set pre. f ?r < f e) \<and> (\<forall>e \<in> set post. f ?r \<le> f e)"
      then obtain pre post where p: "ds = pre @ ?r # post" "f ?r < f d"
          "\<forall>e \<in> set pre. f ?r < f e" "\<forall>e \<in> set post. f ?r \<le> f e" by blast
      have "d # ds = (d # pre) @ ?r # post \<and> f ?r < b \<and> (\<forall>e \<in> set (d # pre). f ?r < f e)
          \<and> (\<forall>e \<in> set post. f ?r \<le> f e)"
        using p True by auto
      then show ?thesis unfolding r by blast
    qed
  next
    case False
    let ?r = "choose_loop t target ds best (Some b)"
    have r: "choose_loop t target (d # ds) best (Some b) = ?r"
      using False by (simp add: f [symmetric])
    from Cons.IH [of best b] show ?thesis
    proof
      assume "?r = best \<and> (\<forall>e \<in> set ds. b \<le> f e)"
      then show ?thesis unfolding r using False by auto
    next
      assume "\<exists>pre post. ds = pre @ ?r # post \<and> f ?r < b
          \<and> (\<forall>e \<in> set pre. f ?r < f e) \<and> (\<forall>e \<in> set post. f ?r \<le> f e)"
      then obtain pre post where p: "ds = pre @ ?r # post" "f ?r < b"
          "\<forall>e \<in> set pre. f ?r < f e" "\<forall>e \<in> set post. f ?r \<le> f e" by blast
      have "d # ds = (d # pre) @ ?r # post \<and> f ?r < b \<and> (\<forall>e \<in> set (d # pre). f ?r < f e)
          \<and> (\<forall>e \<in> set post. f ?r \<le> f e)"
        using p False by auto
      then show ?thesis unfolding r by blast
    qed
  qed
qed

lemma choose_loop_first_min:
  fixes f :: "dir \<Rightarrow> int"
  assumes f: "\<And>d. f d = manhattan (fst t + fst d, snd t + snd d) target" and ne: "ds \<noteq> []"
  shows "\<exists>pre post. ds = pre @ choose_loop t target ds best None # post
        \<and> (\<forall>e \<in> set pre. f (choose_loop t target ds best None) < f e)
        \<and> (\<forall>e \<in> set post. f (choose_loop t target ds best None) \<le> f e)"
proof -
  from ne obtain d ds' where ds: "ds = d # ds'" by (cases ds) auto
  let ?r = "choose_loop t target ds' d (Some (f d))"
  have r: "choose_loop t target ds best None = ?r"
    by (simp add: ds f [symmetric])
  from choose_loop_running_min [of f t target ds' d "f d", OF f] show ?thesis
  proof
    assume "?r = d \<and> (\<forall>e \<in> set ds'. f d \<le> f e)"
    then have "ds = [] @ ?r # ds' \<and> (\<forall>e \<in> set ds'. f ?r \<le> f e)"
      by (simp add: ds)
    then show ?thesis unfolding r by (metis empty_iff list.set(1))
  next
    assume "\<exists>pre post. ds' = pre @ ?r # post \<and> f ?r < f d
        \<and> (\<forall>e \<in> set pre. f ?r < f e) \<and> (\<forall>e \<in> set post. f ?r \<le> f e)"
    then obtain pre post where p: "ds' = pre @ ?r # post" "f ?r < f d"
        "\<forall>e \<in> set pre. f ?r < f e" "\<forall>e \<in> set post. f ?r \<le> f e" by blast
    have "ds = (d # pre) @ ?r # post \<and> (\<forall>e \<in> set (d # pre). f ?r < f e)
        \<and> (\<forall>e \<in> set post. f ?r \<le> f e)"
      using p by (auto simp: ds)
    then show ?thesis unfolding r by blast
  qed
qed

lemma rank_sorted: "sorted_wrt (\<lambda>a b. rank a < rank b) ALL_DIRS"
  by (simp add: ALL_DIRS_def rank_def UP_def DOWN_def LEFT_def RIGHT_def)

lemma valid_neighbors_sorted: "sorted_wrt (\<lambda>a b. rank a < rank b) (valid_neighbors m g av)"
  by (simp add: valid_neighbors_def split_def Let_def sorted_wrt_filter rank_sorted)

lemma candidates_sorted: "sorted_wrt (\<lambda>a b. rank a < rank b) (candidates m g)"
  by (simp add: candidates_def valid_neighbors_sorted)

lemma decide_candidates:
  "at_center g \<Longrightarrow> decide m pt (g, r) =
     (g\<lparr>g_dir := fst (choose_dir g (candidates m g) (target_tile m g pt) r)\<rparr>,
      snd (choose_dir g (candidates m g) (target_tile m g pt) r))"
  by (simp add: decide_def split_def)

text \<open>
  Claim C8. A pursuer (\<^verbatim>\<open>ChaserGhost\<close>) that is centred on a tile and has a candidate takes
  a candidate whose tile after one step is nearest to the target in Manhattan distance;
  among the candidates at that distance it takes the one that comes first in the order
  up, down, left, right.
\<close>

theorem pursuer_greedy_first_minimum:
  assumes "g_class g = ChaserGhost" and "at_center g" and "candidates m g \<noteq> []"
  shows "g_dir (fst (decide m pt (g, r))) \<in> set (candidates m g)
     \<and> (\<forall>e \<in> set (candidates m g).
          step_dist g (target_tile m g pt) (g_dir (fst (decide m pt (g, r))))
            \<le> step_dist g (target_tile m g pt) e)
     \<and> (\<forall>e \<in> set (candidates m g).
          step_dist g (target_tile m g pt) e
            = step_dist g (target_tile m g pt) (g_dir (fst (decide m pt (g, r))))
          \<longrightarrow> rank (g_dir (fst (decide m pt (g, r)))) \<le> rank e)"
proof -
  let ?cs = "candidates m g" and ?t = "target_tile m g pt"
  let ?f = "step_dist g ?t"
  let ?d = "choose_loop (round_tile (g_pos g)) ?t ?cs (hd ?cs) None"
  have d: "g_dir (fst (decide m pt (g, r))) = ?d"
    using assms by (simp add: decide_candidates choose_dir_def greedy_choose_dir_def)
  have "\<exists>pre post. ?cs = pre @ ?d # post \<and> (\<forall>e \<in> set pre. ?f ?d < ?f e)
        \<and> (\<forall>e \<in> set post. ?f ?d \<le> ?f e)"
    by (rule choose_loop_first_min) (simp_all add: step_dist_def assms)
  then obtain pre post where p: "?cs = pre @ ?d # post" "\<forall>e \<in> set pre. ?f ?d < ?f e"
      "\<forall>e \<in> set post. ?f ?d \<le> ?f e" by blast
  have mem: "?d \<in> set ?cs" by (subst p(1)) simp
  have set_cs: "set ?cs = set pre \<union> {?d} \<union> set post" by (subst p(1)) auto
  have least: "\<forall>e \<in> set ?cs. ?f ?d \<le> ?f e"
    unfolding set_cs using p(2,3) by fastforce
  have "sorted_wrt (\<lambda>a b. rank a < rank b) (pre @ ?d # post)"
    using candidates_sorted [of m g] p(1) by simp
  then have later: "\<forall>e \<in> set post. rank ?d < rank e"
    by (simp add: sorted_wrt_append)
  have first: "\<forall>e \<in> set ?cs. ?f e = ?f ?d \<longrightarrow> rank ?d \<le> rank e"
    unfolding set_cs using p(2) later by fastforce
  show ?thesis unfolding d using mem least first by blast
qed

text \<open>At \<open>(5, 7)\<close> of the game's maze, fleeing to the corner \<open>(24, 14)\<close>: up and left are
  both 27 away, and up is taken.\<close>

theorem pursuer_greedy_first_minimum_witness:
  "candidates build_maze tie_ghost = [UP, LEFT]
   \<and> step_dist tie_ghost (target_tile build_maze tie_ghost (1, 3)) UP = 27
   \<and> step_dist tie_ghost (target_tile build_maze tie_ghost (1, 3)) LEFT = 27
   \<and> g_dir (fst (decide build_maze (1, 3) (tie_ghost, replay []))) = UP"
proof -
  have c: "candidates build_maze tie_ghost = [UP, LEFT]"
    by (simp add: tie_ghost_def candidates_def valid_neighbors_def round_defs look_defs const_defs)
  have a: "at_center tie_ghost"
    by (simp add: tie_ghost_def at_center_def round_defs)
  have k: "g_class tie_ghost = ChaserGhost" by (simp add: tie_ghost_def)
  have ne: "candidates build_maze tie_ghost \<noteq> []" by (simp add: c)
  have d: "step_dist tie_ghost (target_tile build_maze tie_ghost (1, 3)) UP = 27"
     "step_dist tie_ghost (target_tile build_maze tie_ghost (1, 3)) LEFT = 27"
    by (simp_all add: tie_ghost_def step_dist_def target_tile_def manhattan_def round_defs
        maze_facts const_defs)
  let ?d = "g_dir (fst (decide build_maze (1, 3) (tie_ghost, replay [])))"
  from pursuer_greedy_first_minimum [OF k a ne, of "(1, 3)" "replay []"]
  have mem: "?d \<in> set [UP, LEFT]"
    and least: "step_dist tie_ghost (target_tile build_maze tie_ghost (1, 3)) ?d \<le> 27"
    and first: "step_dist tie_ghost (target_tile build_maze tie_ghost (1, 3)) UP =
          step_dist tie_ghost (target_tile build_maze tie_ghost (1, 3)) ?d \<longrightarrow> rank ?d \<le> rank UP"
    using c d by auto
  have "?d = UP"
  proof (rule ccontr)
    assume "?d \<noteq> UP"
    then have l: "?d = LEFT" using mem by simp
    then show False using first d by (simp add: rank_def const_defs)
  qed
  then show ?thesis using c d by simp
qed

section \<open>The flee target\<close>

text \<open>
  Claim C10. For a vulnerable ghost the flee target has x-coordinate \<open>width - 1\<close> when the
  player's tile x is exactly \<open>width div 2\<close>, and y-coordinate \<open>height - 1\<close> when the player's
  tile y is exactly \<open>height div 2\<close> (the comparison is strict); the target is always one of
  the four corner tiles, whatever the walls are.
\<close>

theorem flee_target_far_corner:
  assumes "g_state g = GHOST_VULNERABLE"
  shows "(fst pt = width m div 2 \<longrightarrow> fst (target_tile m g pt) = width m - 1)
     \<and> (snd pt = height m div 2 \<longrightarrow> snd (target_tile m g pt) = height m - 1)
     \<and> target_tile m g pt \<in> {(0, 0), (0, height m - 1), (width m - 1, 0), (width m - 1, height m - 1)}"
  using assms by (cases pt) (simp add: target_tile_def Let_def)

text \<open>In the game's maze, with the player on the house tile \<open>(12, 7)\<close>, the target is the
  corner \<open>(24, 14)\<close>, a wall.\<close>

theorem flee_target_far_corner_witness:
  "g_state \<lparr>g_class = ChaserGhost, g_start = (6, 9), g_pos = (5, 5), g_dir = UP,
            g_state = GHOST_VULNERABLE\<rparr> = GHOST_VULNERABLE
   \<and> target_tile build_maze \<lparr>g_class = ChaserGhost, g_start = (6, 9), g_pos = (5, 5), g_dir = UP,
            g_state = GHOST_VULNERABLE\<rparr> (12, 7) = (24, 14)
   \<and> (24, 14) \<in> walls build_maze"
  using flee_target_far_corner [of "\<lparr>g_class = ChaserGhost, g_start = (6, 9), g_pos = (5, 5),
      g_dir = UP, g_state = GHOST_VULNERABLE\<rparr>" "(12, 7)" build_maze]
  by (simp add: maze_facts prod_eq_iff)

section \<open>A layout without a player spawn\<close>

text \<open>
  Claim C6 says that constructing a maze from a layout without a \<^verbatim>\<open>P\<close> fails with an error.
  \<^verbatim>\<open>Maze.__init__\<close> raises nothing: it returns a maze whose player start is the preset
  \<open>(1, 1)\<close>. For a layout of walls only that tile is a wall, and for the empty layout it is
  out of bounds.
\<close>

theorem missing_spawn_counterexample:
  "player_start (Maze_init [''###'', ''###'', ''###'']) = (1, 1)
   \<and> (1, 1) \<in> walls (Maze_init [''###'', ''###'', ''###''])
   \<and> player_start (Maze_init []) = (1, 1)
   \<and> \<not> in_bounds (Maze_init []) 1 1"
  by (simp add: Maze_init_walls cell_def in_bounds_def Maze_init_size)
     (simp add: Maze_init_def parse_def Let_def parse_rows_start)

text \<open>
  Claim C6, amended. For every layout without a \<^verbatim>\<open>P\<close>, construction succeeds and the
  player start is the preset tile \<open>(1, 1)\<close>.
\<close>

theorem missing_spawn_defaults:
  assumes "\<forall>row \<in> set lay. CHR ''P'' \<notin> set row"
  shows "player_start (Maze_init lay) = (1, 1)"
  using assms by (simp add: Maze_init_def parse_def Let_def parse_rows_no_spawn)

theorem missing_spawn_defaults_witness:
  "player_start (Maze_init [''#.#'', ''# #'']) = (1, 1)"
  using missing_spawn_defaults [of "[''#.#'', ''# #'']"] by simp

section \<open>The power pellet\<close>

lemma eat_pellets_power:
  "round_tile (p_pos p) \<in> power_pellets m \<Longrightarrow> snd (snd (snd (eat_pellets m p))) = 1"
  by (simp add: eat_pellets_def Let_def)

text \<open>
  Claim C4. In a tick in which the player, after moving, stands on a power pellet, the
  power timer is set to \<open>7 * 60\<close> ticks whatever it was before, every ghost that is not
  eaten becomes vulnerable and every eaten ghost stays eaten.
\<close>

theorem power_pellet_restarts_timer:
  assumes "round_tile (p_pos (update_player (maze s) (player s))) \<in> power_pellets (maze s)"
  shows "power_timer (player_phase s) = 7 * 60
     \<and> map g_state (ghosts (player_phase s)) =
         map (\<lambda>g. if g_state g = GHOST_EATEN then GHOST_EATEN else GHOST_VULNERABLE) (ghosts s)"
  using assms
  by (simp add: player_phase_def Let_def split_def eat_pellets_power power_duration_sec_def
      FPS_def set_vulnerable_def comp_def)

text \<open>With 100 ticks left on the timer the pellet at \<open>(1, 3)\<close> sets it to 420.\<close>

theorem power_pellet_restarts_timer_witness:
  "power_timer repower_state = 100
   \<and> power_timer (player_phase repower_state) = 420
   \<and> map g_state (ghosts (player_phase repower_state))
        = [GHOST_VULNERABLE, GHOST_EATEN, GHOST_VULNERABLE]"
proof -
  have h: "round_tile (p_pos (update_player (maze repower_state) (player repower_state)))
      \<in> power_pellets (maze repower_state)"
    by (simp add: repower_state_def player_defs round_defs look_defs const_defs)
  show ?thesis
    using power_pellet_restarts_timer [OF h] by (simp add: repower_state_def)
qed

section \<open>Leaving the house\<close>

text \<open>
  Claim C1. An eaten ghost that is centred on the house tile after its move becomes normal
  in that tick, and is to take a new direction that is not the reverse of its heading when
  another legal direction exists. The source comments the re-choice as
  \<^verbatim>\<open>pick a new direction away from reversing\<close> and then draws from
  \<^verbatim>\<open>_valid_neighbors(avoid_reverse=False)\<close>: heading right into the house tile
  \<open>(12, 7)\<close>, with down and right legal and not the reverse, the draw 1 turns the ghost
  left.
\<close>

theorem revived_ghost_may_reverse:
  "g_dir homing_ghost = RIGHT
   \<and> update_ghost build_maze (8, 7) (homing_ghost, replay [1]) =
       (\<lparr>g_class = ChaserGhost, g_start = (6, 9), g_pos = (12, 7), g_dir = LEFT,
         g_state = GHOST_NORMAL\<rparr>, replay [])
   \<and> valid_neighbors build_maze
        \<lparr>g_class = ChaserGhost, g_start = (6, 9), g_pos = (12, 7), g_dir = RIGHT,
         g_state = GHOST_NORMAL\<rparr> True = [DOWN, RIGHT]"
  by (simp add: homing_ghost_def ghost_defs round_defs look_defs const_defs)

section \<open>Running the game\<close>

lemma win_phase_pending: "t \<in> pellets (maze s) \<Longrightarrow> win_phase s = s"
  by (auto simp: win_phase_def)

lemma run_append: "run (xs @ ys) sr = run ys (run xs sr)"
  by (induction xs arbitrary: sr) (auto, cases ys, auto)

lemma reachable_run: "reachable sr \<Longrightarrow> reachable (run evs sr)"
proof (induction evs arbitrary: sr)
  case Nil
  then show ?case by simp
next
  case (Cons ev evs)
  show ?case
  proof (cases "running (fst sr)")
    case True
    then have "reachable (tick ev sr)" using Cons.prems by (rule reachable.step [rotated])
    then show ?thesis using True by (simp add: Cons.IH)
  next
    case False
    then show ?thesis using Cons.prems by simp
  qed
qed

lemma replicate_numeral: "replicate (numeral k) x = x # replicate (pred_numeral k) x"
  by (simp add: numeral_eq_Suc)

lemmas trace_simps = replicate_numeral hold_def game_defs player_defs ghost_defs round_defs look_defs const_defs
  win_phase_pending [of "(22, 13)"] Game_init_def init_ghosts_def init_next_def Ghost_init_def
  Player_init_def

lemma wall_run_8:
  "run (replicate 8 (hold DOWN)) (Game_init (replay wall_draws)) = wall_8"
  by (simp add: wall_draws_def wall_8_def trace_simps del: Diff_insert0)

lemma wall_run_14: "run (replicate 6 (hold RIGHT)) wall_8 = wall_14"
  by (simp add: wall_8_def wall_14_def trace_simps del: Diff_insert0)

lemma wall_run_20: "run (replicate 6 (hold RIGHT)) wall_14 = wall_20"
  by (simp add: wall_14_def wall_20_def trace_simps del: Diff_insert0)

lemma wall_run_26: "run (replicate 6 (hold RIGHT)) wall_20 = wall_26"
  by (simp add: wall_20_def wall_26_def trace_simps del: Diff_insert0)

lemma wall_run_32: "run (replicate 6 (hold RIGHT)) wall_26 = wall_32"
  by (simp add: wall_26_def wall_32_def trace_simps del: Diff_insert0)

lemma wall_run_38: "run (replicate 6 (hold RIGHT)) wall_32 = wall_38"
  by (simp add: wall_32_def wall_38_def trace_simps del: Diff_insert0)

lemma wall_run_44: "run (replicate 6 (hold RIGHT)) wall_38 = wall_44"
  by (simp add: wall_38_def wall_44_def trace_simps del: Diff_insert0)

lemma wall_run_51: "run (replicate 7 (hold DOWN)) wall_44 = wall_51"
  by (simp add: wall_44_def wall_51_def trace_simps del: Diff_insert0)

lemma wall_run_57: "run (replicate 6 (hold DOWN)) wall_51 = wall_57"
  by (simp add: wall_51_def wall_57_def trace_simps del: Diff_insert0)

lemma wall_events_split:
  "wall_events = replicate 8 (hold DOWN) @ replicate 6 (hold RIGHT) @ replicate 6 (hold RIGHT)
     @ replicate 6 (hold RIGHT) @ replicate 6 (hold RIGHT) @ replicate 6 (hold RIGHT)
     @ replicate 6 (hold RIGHT) @ replicate 7 (hold DOWN) @ replicate 6 (hold DOWN)"
  by (simp add: wall_events_def flip: replicate_add)

lemma wall_run: "run wall_events (Game_init (replay wall_draws)) = wall_57"
  by (simp only: wall_events_split run_append wall_run_8 wall_run_14 wall_run_20 wall_run_26
      wall_run_32 wall_run_38 wall_run_44 wall_run_51 wall_run_57)

section \<open>The player's quarter grid\<close>

lemma quarter_Ints: "quarter q \<longleftrightarrow> 4 * q \<in> \<int>"
  by (auto simp: quarter_def Ints_def intro: floor_of_int [symmetric] dest: sym)

lemma quarter_of_int [simp]: "quarter (of_int k)"
proof -
  have "4 * (of_int k :: rat) = of_int (4 * k)" by simp
  then show ?thesis unfolding quarter_Ints by (metis Ints_of_int)
qed

lemma player_speed_quarter: "player_speed = 1 / 4"
  by (simp add: player_speed_def TILE_SIZE_def)

lemma quarter_step: "quarter q \<Longrightarrow> quarter (q + of_int d * player_speed)"
proof -
  assume "quarter q"
  then have "4 * q \<in> \<int>" by (simp add: quarter_Ints)
  moreover have "4 * (q + of_int d * player_speed) = 4 * q + of_int d"
    unfolding player_speed_quarter by (simp add: algebra_simps)
  ultimately have "4 * (q + of_int d * player_speed) \<in> \<int>" by (simp only: Ints_add Ints_of_int)
  then show ?thesis by (simp only: quarter_Ints)
qed

lemma quarter_centered_exact:
  assumes "quarter q" and "\<bar>q - of_int (py_round q)\<bar> < 1 / 10"
  shows "q = of_int (py_round q)"
proof (rule ccontr)
  assume ne: "q \<noteq> of_int (py_round q)"
  let ?x = "4 * q - of_int (4 * py_round q)"
  have "?x \<in> \<int>" using assms(1) by (simp add: quarter_Ints del: of_int_mult)
  moreover have "?x \<noteq> 0" using ne by simp
  ultimately have "1 \<le> \<bar>?x\<bar>" by (rule Ints_nonzero_abs_ge1)
  moreover have "?x = 4 * (q - of_int (py_round q))" by simp
  then have "\<bar>?x\<bar> = 4 * \<bar>q - of_int (py_round q)\<bar>" by (simp only: abs_mult abs_numeral)
  ultimately show False using assms(2) by linarith
qed

lemma apply_next_dir_pos: "p_pos (apply_next_dir m p) = p_pos p"
  by (simp add: apply_next_dir_def)

lemma stop_if_blocked_pos: "p_pos (stop_if_blocked m p) = p_pos p"
  by (simp add: stop_if_blocked_def)

lemma move_player_quarter:
  "on_quarter_grid (p_pos p) \<Longrightarrow> on_quarter_grid (p_pos (move_player p))"
  by (simp add: move_player_def on_quarter_grid_def quarter_step)

lemma clamp_quarter:
  "on_quarter_grid (p_pos p) \<Longrightarrow> on_quarter_grid (p_pos (clamp_inside_walls m p))"
  by (simp add: clamp_inside_walls_def on_quarter_grid_def split_def Let_def)

lemma update_player_quarter:
  "on_quarter_grid (p_pos p) \<Longrightarrow> on_quarter_grid (p_pos (update_player m p))"
  by (simp add: update_player_def clamp_quarter move_player_quarter stop_if_blocked_pos
      apply_next_dir_pos)

lemma eat_pellets_pos: "p_pos (fst (snd (eat_pellets m p))) = p_pos p"
  by (simp add: eat_pellets_def Let_def)

lemma player_phase_quarter:
  "on_quarter_grid (p_pos (player s)) \<Longrightarrow> on_quarter_grid (p_pos (player (player_phase s)))"
  by (simp add: player_phase_def Let_def split_def eat_pellets_pos update_player_quarter)

lemma ghosts_phase_player: "player (fst (ghosts_phase sr)) = player (fst sr)"
  by (simp add: ghosts_phase_def split_def)

lemma timer_phase_player: "player (timer_phase s) = player s"
  by (simp add: timer_phase_def Let_def)

lemma win_phase_player: "player (win_phase s) = player s"
  by (simp add: win_phase_def)

lemma handle_events_pos: "p_pos (player (handle_events ev s)) = p_pos (player s)"
  by (simp add: handle_events_def handle_input_def Let_def)

lemma collide_quarter:
  "on_quarter_grid (p_pos (player (fst sr))) \<Longrightarrow> on_quarter_grid (p_pos (player (fst (collide pp sr i))))"
  by (simp add: collide_def respond_def eat_ghost_def lose_life_def split_def on_quarter_grid_def)

lemma foldl_collide_quarter:
  "on_quarter_grid (p_pos (player (fst sr))) \<Longrightarrow>
     on_quarter_grid (p_pos (player (fst (foldl (collide pp) sr xs))))"
  by (induction xs arbitrary: sr) (simp_all add: collide_quarter)

lemma tick_quarter:
  assumes "on_quarter_grid (p_pos (player (fst sr)))"
  shows "on_quarter_grid (p_pos (player (fst (tick ev sr))))"
proof -
  have "on_quarter_grid (p_pos (player (fst (apfst player_phase (apfst (handle_events ev) sr)))))"
    using assms by (simp add: player_phase_quarter handle_events_pos)
  then have "on_quarter_grid (p_pos (player (fst (apfst timer_phase
      (ghosts_phase (apfst player_phase (apfst (handle_events ev) sr)))))))"
    by (simp add: timer_phase_player ghosts_phase_player)
  then show ?thesis
    by (simp add: tick_def update_def check_collisions_def win_phase_player foldl_collide_quarter)
qed

lemma Game_init_quarter: "on_quarter_grid (p_pos (player (fst (Game_init r))))"
  by (simp add: Game_init_def Let_def split_def Player_init_def on_quarter_grid_def)

lemma reachable_quarter: "reachable sr \<Longrightarrow> on_quarter_grid (p_pos (player (fst sr)))"
  by (induction rule: reachable.induct) (simp_all add: Game_init_quarter tick_quarter)

text \<open>
  Claim C9. In every reachable state both coordinates of the player's position are whole
  multiples of a quarter tile (the speed is exactly \<open>1/4\<close>; start, clamp and reset
  positions are whole), so whenever the centring test succeeds the player is exactly on
  the integer tile centre.
\<close>

theorem player_on_quarter_grid:
  assumes "reachable sr"
  shows "player_speed = 1 / 4
     \<and> on_quarter_grid (p_pos (player (fst sr)))
     \<and> (is_centered_on_tile (player (fst sr)) \<longrightarrow>
          p_pos (player (fst sr)) = (of_int (fst (round_tile (p_pos (player (fst sr))))),
                                     of_int (snd (round_tile (p_pos (player (fst sr)))))))"
proof -
  have q: "on_quarter_grid (p_pos (player (fst sr)))" using assms by (rule reachable_quarter)
  have "is_centered_on_tile (player (fst sr)) \<Longrightarrow>
          p_pos (player (fst sr)) = (of_int (fst (round_tile (p_pos (player (fst sr))))),
                                     of_int (snd (round_tile (p_pos (player (fst sr))))))"
    using q quarter_centered_exact [of "fst (p_pos (player (fst sr)))"]
      quarter_centered_exact [of "snd (p_pos (player (fst sr)))"]
    by (simp add: is_centered_on_tile_def centered_def on_quarter_grid_def round_tile_def prod_eq_iff)
  then show ?thesis using q by (simp add: player_speed_quarter)
qed

text \<open>After eight frames with the down key held the player stands exactly on \<open>(1, 3)\<close>.\<close>

theorem player_on_quarter_grid_witness:
  "is_centered_on_tile (player (fst (run (replicate 8 (hold DOWN)) (Game_init (replay wall_draws)))))
   \<and> p_pos (player (fst (run (replicate 8 (hold DOWN)) (Game_init (replay wall_draws))))) = (1, 3)"
proof -
  have r: "reachable (run (replicate 8 (hold DOWN)) (Game_init (replay wall_draws)))"
    by (rule reachable_run) (rule reachable.init)
  have c: "is_centered_on_tile (player (fst (run (replicate 8 (hold DOWN)) (Game_init (replay wall_draws)))))"
    unfolding wall_run_8 by (simp add: wall_8_def is_centered_on_tile_def round_defs)
  show ?thesis
    using player_on_quarter_grid [OF r] c
    unfolding wall_run_8 by (simp add: wall_8_def round_defs)
qed

section \<open>Responses to a collision\<close>

lemma reset_home: "reset g r = (home_reset (r 0) g, \<lambda>n. r (Suc n))"
  by (simp add: reset_def home_reset_def choice_def)

lemma foldl_reset_next:
  "foldl reset_next (acc, \<lambda>n. r (n + k)) gs =
     (acc @ map (\<lambda>j. home_reset (r (j + k)) (gs ! j)) [0..<length gs],
      \<lambda>n. r (n + (k + length gs)))"
proof (induction gs rule: rev_induct)
  case Nil
  then show ?case by simp
next
  case (snoc g gs)
  have old: "map (\<lambda>j. home_reset (r (j + k)) ((gs @ [g]) ! j)) [0..<length gs] =
      map (\<lambda>j. home_reset (r (j + k)) (gs ! j)) [0..<length gs]"
    by (rule map_cong) (simp_all add: nth_append)
  have "foldl reset_next (acc, \<lambda>n. r (n + k)) (gs @ [g]) =
      reset_next (acc @ map (\<lambda>j. home_reset (r (j + k)) (gs ! j)) [0..<length gs],
                  \<lambda>n. r (n + (k + length gs))) g"
    by (simp only: foldl_append foldl.simps snoc.IH)
  also have "\<dots> = (acc @ map (\<lambda>j. home_reset (r (j + k)) ((gs @ [g]) ! j)) [0..<length (gs @ [g])],
      \<lambda>n. r (n + (k + length (gs @ [g]))))"
    by (simp add: reset_next_def reset_home old add.commute)
  finally show ?case .
qed

lemma reset_all_home:
  "reset_all gs r =
     (map (\<lambda>j. home_reset (r j) (gs ! j)) [0..<length gs], \<lambda>n. r (n + length gs))"
  using foldl_reset_next [of "[]" r 0 gs] by (simp add: reset_all_def)

text \<open>
  Claim C3. When the collision pass finds a normal ghost in reach, the player loses exactly
  one life and \<open>win\<close> is left as it is. With two or more lives before, the player is put
  on the maze's player start, every ghost is put on its own home start, normal, with a
  freshly drawn direction (the \<open>j\<close>-th ghost takes the \<open>j\<close>-th draw), and the power timer
  is 0; with one life before, \<open>running\<close> becomes false.
\<close>

theorem threat_collision_costs_a_life:
  assumes "near pp (grid_to_px (g_pos (ghosts (fst sr) ! i)))"
    and "g_state (ghosts (fst sr) ! i) = GHOST_NORMAL"
  shows "p_lives (player (fst (collide pp sr i))) = p_lives (player (fst sr)) - 1
     \<and> win (fst (collide pp sr i)) = win (fst sr)
     \<and> (2 \<le> p_lives (player (fst sr)) \<longrightarrow>
          p_pos (player (fst (collide pp sr i)))
            = (of_int (fst (player_start (maze (fst sr)))), of_int (snd (player_start (maze (fst sr)))))
          \<and> ghosts (fst (collide pp sr i))
            = map (\<lambda>j. home_reset (snd sr j) (ghosts (fst sr) ! j)) [0..<length (ghosts (fst sr))]
          \<and> power_timer (fst (collide pp sr i)) = 0
          \<and> running (fst (collide pp sr i)) = running (fst sr))
     \<and> (p_lives (player (fst sr)) \<le> 1 \<longrightarrow> \<not> running (fst (collide pp sr i)))"
  using assms by (simp add: collide_def respond_def lose_life_def reset_all_home)

theorem threat_collision_costs_a_life_witness:
  "p_lives (player crowd_state) = 3
   \<and> p_lives (player (fst (collide (204, 132) (crowd_state, replay [2, 0, 1, 3]) 0))) = 2
   \<and> p_pos (player (fst (collide (204, 132) (crowd_state, replay [2, 0, 1, 3]) 0))) = (1, 1)
   \<and> map g_pos (ghosts (fst (collide (204, 132) (crowd_state, replay [2, 0, 1, 3]) 0)))
        = [(6, 9), (11, 9), (14, 9), (19, 9)]
   \<and> map g_dir (ghosts (fst (collide (204, 132) (crowd_state, replay [2, 0, 1, 3]) 0)))
        = [LEFT, UP, DOWN, RIGHT]
   \<and> power_timer (fst (collide (204, 132) (crowd_state, replay [2, 0, 1, 3]) 0)) = 0"
proof -
  have n: "near (204, 132) (grid_to_px (g_pos (ghosts (fst (crowd_state, replay [2, 0, 1, 3])) ! 0)))"
    by (simp add: crowd_state_def near_def grid_to_px_def py_int_def TILE_SIZE_def)
  have t: "g_state (ghosts (fst (crowd_state, replay [2, 0, 1, 3])) ! 0) = GHOST_NORMAL"
    by (simp add: crowd_state_def)
  show ?thesis
    using threat_collision_costs_a_life [OF n t]
    by (simp add: crowd_state_def home_reset_def replay_def maze_facts const_defs upt_rec)
qed

text \<open>
  Claim C5. When the collision pass finds a vulnerable ghost in reach, whatever the power
  timer is, the score goes up by exactly 200 and that ghost becomes eaten (not normal);
  the other ghosts, the lives and the timer are untouched.
\<close>

theorem vulnerable_collision_scores_200:
  assumes "i < length (ghosts (fst sr))"
    and "near pp (grid_to_px (g_pos (ghosts (fst sr) ! i)))"
    and "g_state (ghosts (fst sr) ! i) = GHOST_VULNERABLE"
  shows "p_score (player (fst (collide pp sr i))) = p_score (player (fst sr)) + 200
     \<and> g_state (ghosts (fst (collide pp sr i)) ! i) = GHOST_EATEN
     \<and> ghosts (fst (collide pp sr i)) = (ghosts (fst sr))[i := (ghosts (fst sr) ! i)\<lparr>g_state := GHOST_EATEN\<rparr>]
     \<and> power_timer (fst (collide pp sr i)) = power_timer (fst sr)
     \<and> p_lives (player (fst (collide pp sr i))) = p_lives (player (fst sr))"
  using assms by (simp add: collide_def respond_def eat_ghost_def set_eaten_def)

theorem vulnerable_collision_scores_200_witness:
  "p_score (player feast_state) = 120
   \<and> p_score (player (fst (collide (204, 132) (feast_state, replay []) 0))) = 320
   \<and> map g_state (ghosts (fst (collide (204, 132) (feast_state, replay []) 0)))
        = [GHOST_EATEN, GHOST_NORMAL, GHOST_VULNERABLE, GHOST_EATEN]"
proof -
  have l: "0 < length (ghosts (fst (feast_state, replay [])))" by (simp add: feast_state_def)
  have n: "near (204, 132) (grid_to_px (g_pos (ghosts (fst (feast_state, replay [])) ! 0)))"
    by (simp add: feast_state_def near_def grid_to_px_def py_int_def TILE_SIZE_def)
  have t: "g_state (ghosts (fst (feast_state, replay [])) ! 0) = GHOST_VULNERABLE"
    by (simp add: feast_state_def)
  show ?thesis
    using vulnerable_collision_scores_200 [OF l n t]
    by (simp add: feast_state_def)
qed

section \<open>Several collisions in one pass\<close>

lemma near_hypot:
  "near pp gp \<longleftrightarrow>
     sqrt (real_of_int ((fst pp - fst gp) * (fst pp - fst gp) + (snd pp - snd gp) * (snd pp - snd gp)))
       < real_of_int TILE_SIZE * (6 / 10)"
proof -
  let ?s = "(fst pp - fst gp) * (fst pp - fst gp) + (snd pp - snd gp) * (snd pp - snd gp)"
  have "near pp gp \<longleftrightarrow> 25 * ?s < 5184"
  proof -
    have "near pp gp \<longleftrightarrow> (of_int ?s :: rat) < 5184 / 25"
      by (simp add: near_def TILE_SIZE_def)
    also have "\<dots> \<longleftrightarrow> (of_int (25 * ?s) :: rat) < of_int 5184"
      by (simp add: field_simps)
    also have "\<dots> \<longleftrightarrow> 25 * ?s < 5184" by (simp only: of_int_less_iff)
    finally show ?thesis .
  qed
  moreover have "sqrt (real_of_int ?s) < real_of_int TILE_SIZE * (6 / 10) \<longleftrightarrow> 25 * ?s < 5184"
  proof -
    have "sqrt ((72 / 5)\<^sup>2) = (72 / 5 :: real)" by simp
    then have "sqrt (real_of_int ?s) < 72 / 5 \<longleftrightarrow> sqrt (real_of_int ?s) < sqrt ((72 / 5)\<^sup>2)"
      by (simp only:)
    also have "\<dots> \<longleftrightarrow> real_of_int ?s < (72 / 5)\<^sup>2"
      by (rule real_sqrt_less_iff)
    also have "\<dots> \<longleftrightarrow> real_of_int (25 * ?s) < real_of_int 5184"
      by (simp add: field_simps power2_eq_square)
    also have "\<dots> \<longleftrightarrow> 25 * ?s < 5184" by (simp only: of_int_less_iff)
    finally show ?thesis by (simp add: TILE_SIZE_def)
  qed
  ultimately show ?thesis by blast
qed

lemma same_positions_nth:
  assumes "map g_pos xs = map g_pos ys" and "i < length ys"
  shows "g_pos (xs ! i) = g_pos (ys ! i)"
proof -
  have "length xs = length ys" using assms(1) by (rule map_eq_imp_length_eq)
  then have "map g_pos xs ! i = g_pos (xs ! i)" "map g_pos ys ! i = g_pos (ys ! i)"
    using assms(2) by simp_all
  then show ?thesis using assms(1) by simp
qed

lemma collide_respond_if:
  assumes "map g_pos (ghosts (fst sr')) = map g_pos (ghosts (fst sr))"
    and "i < length (ghosts (fst sr))"
    and "hits = map (\<lambda>g. near pp (grid_to_px (g_pos g))) (ghosts (fst sr))"
  shows "collide pp sr' i = respond_if hits sr' i"
  using same_positions_nth [OF assms(1,2)] assms(2,3)
  by (simp add: collide_def respond_if_def)

lemma respond_keeps_inv:
  assumes inv: "pass_inv sr hits sr'" and i: "i < length (ghosts (fst sr))" and hit: "hits ! i"
  shows "pass_inv sr hits (respond sr' i)"
proof -
  have len: "length (ghosts (fst sr')) = length (ghosts (fst sr))"
    using inv unfolding pass_inv_def by (metis map_eq_imp_length_eq)
  consider (v) "g_state (ghosts (fst sr') ! i) = GHOST_VULNERABLE"
    | (e) "g_state (ghosts (fst sr') ! i) = GHOST_EATEN"
    | (n) "g_state (ghosts (fst sr') ! i) = GHOST_NORMAL"
    by (cases "g_state (ghosts (fst sr') ! i)") auto
  then show ?thesis
  proof cases
    case v
    have "map g_pos ((ghosts (fst sr'))[i := set_eaten (ghosts (fst sr') ! i)])
        = (map g_pos (ghosts (fst sr')))[i := g_pos (ghosts (fst sr') ! i)]"
      by (simp add: map_update set_eaten_def)
    also have "\<dots> = map g_pos ((ghosts (fst sr'))[i := ghosts (fst sr') ! i])"
      by (simp only: map_update)
    also have "\<dots> = map g_pos (ghosts (fst sr'))" by simp
    finally have "map g_pos ((ghosts (fst sr'))[i := set_eaten (ghosts (fst sr') ! i)])
        = map g_pos (ghosts (fst sr'))" .
    moreover have "j < length (ghosts (fst sr)) \<Longrightarrow>
        g_state (ghosts (fst sr') ! j) \<noteq> GHOST_NORMAL \<Longrightarrow>
        g_state ((ghosts (fst sr'))[i := set_eaten (ghosts (fst sr') ! i)] ! j) \<noteq> GHOST_NORMAL" for j
      using len by (cases "j = i") (simp_all add: set_eaten_def)
    ultimately show ?thesis
      using inv v unfolding pass_inv_def by (auto simp: respond_def eat_ghost_def)
  next
    case e
    then show ?thesis using inv by (simp add: respond_def)
  next
    case n
    then have "p_lives (player (fst sr')) \<le> 1"
      using inv i hit unfolding pass_inv_def by auto
    then show ?thesis
      using inv n unfolding pass_inv_def by (simp add: respond_def lose_life_def)
  qed
qed

lemma pass_agrees:
  assumes hits: "hits = map (\<lambda>g. near pp (grid_to_px (g_pos g))) (ghosts (fst sr))"
  shows "pass_inv sr hits sr' \<Longrightarrow> \<forall>i \<in> set xs. i < length (ghosts (fst sr)) \<Longrightarrow>
           foldl (collide pp) sr' xs = foldl (respond_if hits) sr' xs"
proof (induction xs arbitrary: sr')
  case Nil
  then show ?case by simp
next
  case (Cons i xs)
  have i: "i < length (ghosts (fst sr))" using Cons.prems(2) by simp
  have pos: "map g_pos (ghosts (fst sr')) = map g_pos (ghosts (fst sr))"
    using Cons.prems(1) by (simp add: pass_inv_def)
  have eq: "collide pp sr' i = respond_if hits sr' i"
    using pos i hits by (rule collide_respond_if)
  have "pass_inv sr hits (respond_if hits sr' i)"
    using Cons.prems(1) i by (simp add: respond_if_def respond_keeps_inv)
  then have "foldl (collide pp) (respond_if hits sr' i) xs = foldl (respond_if hits) (respond_if hits sr' i) xs"
    using Cons.prems(2) by (intro Cons.IH) simp_all
  then show ?case by (simp add: eq)
qed

text \<open>
  Claim C7, amended. A ghost is in reach exactly when the Euclidean distance of the pixel
  centres is below \<open>0.6 * TILE_SIZE\<close>. The player's pixel position is taken once, when the
  pass starts, and each ghost is tested at the position it has at its own turn. When the
  pass resets nothing (the player is on the last life, or no normal ghost is in reach at
  the start), that is the same as testing every ghost on the positions at the start.
\<close>

theorem collisions_independent_without_reset:
  assumes "p_lives (player (fst sr)) \<le> 1
     \<or> (\<forall>g \<in> set (ghosts (fst sr)).
          near (grid_to_px (p_pos (player (fst sr)))) (grid_to_px (g_pos g)) \<longrightarrow> g_state g \<noteq> GHOST_NORMAL)"
  shows "check_collisions sr = independent_collisions sr
     \<and> (\<forall>pp gp. near pp gp \<longleftrightarrow>
          sqrt (real_of_int ((fst pp - fst gp) * (fst pp - fst gp) + (snd pp - snd gp) * (snd pp - snd gp)))
            < real_of_int TILE_SIZE * (6 / 10))"
proof -
  let ?pp = "grid_to_px (p_pos (player (fst sr)))"
  let ?hits = "map (\<lambda>g. near ?pp (grid_to_px (g_pos g))) (ghosts (fst sr))"
  have "pass_inv sr ?hits sr"
    using assms unfolding pass_inv_def by auto
  then have "foldl (collide ?pp) sr [0..<length (ghosts (fst sr))]
      = foldl (respond_if ?hits) sr [0..<length (ghosts (fst sr))]"
    by (rule pass_agrees [OF refl]) simp
  then show ?thesis
    by (simp add: check_collisions_def independent_collisions_def near_hypot)
qed

text \<open>
  Claim C7 says that several ghosts in reach are each evaluated on their own, with no
  re-check against reset positions. With two normal ghosts in reach and three lives, the
  first costs a life and resets all ghosts; the second is then tested at its home start,
  out of reach, so the pass costs one life where independent evaluation costs two.
\<close>

theorem second_collision_after_reset_counterexample:
  "near (grid_to_px (p_pos (player crowd_state))) (grid_to_px (g_pos (ghosts crowd_state ! 0)))
   \<and> near (grid_to_px (p_pos (player crowd_state))) (grid_to_px (g_pos (ghosts crowd_state ! 1)))
   \<and> p_lives (player (fst (check_collisions (crowd_state, replay [])))) = 2
   \<and> p_lives (player (fst (independent_collisions (crowd_state, replay [])))) = 1"
  by (simp add: crowd_state_def independent_collisions_def respond_if_def game_defs ghost_defs
      maze_facts const_defs)

theorem collisions_independent_without_reset_witness:
  "check_collisions (feast_state, replay []) = independent_collisions (feast_state, replay [])
   \<and> p_score (player (fst (check_collisions (feast_state, replay [])))) = 520
   \<and> map g_state (ghosts (fst (check_collisions (feast_state, replay []))))
        = [GHOST_EATEN, GHOST_NORMAL, GHOST_EATEN, GHOST_EATEN]"
proof -
  have h: "p_lives (player (fst (feast_state, replay []))) \<le> 1
     \<or> (\<forall>g \<in> set (ghosts (fst (feast_state, replay []))).
          near (grid_to_px (p_pos (player (fst (feast_state, replay []))))) (grid_to_px (g_pos g))
            \<longrightarrow> g_state g \<noteq> GHOST_NORMAL)"
    by (simp add: feast_state_def near_def grid_to_px_def py_int_def TILE_SIZE_def)
  have e: "p_score (player (fst (check_collisions (feast_state, replay [])))) = 520
   \<and> map g_state (ghosts (fst (check_collisions (feast_state, replay []))))
        = [GHOST_EATEN, GHOST_NORMAL, GHOST_EATEN, GHOST_EATEN]"
    by (simp add: feast_state_def game_defs ghost_defs const_defs)
  show ?thesis
    using collisions_independent_without_reset [OF h] e by simp
qed

section \<open>Walls\<close>

text \<open>
  Claim C2. In every reachable state the rounded tile of every entity is outside the walls.
  A ghost chooses its direction only within a tenth of a tile of a tile centre, and an
  eaten ghost advances \<open>7/24\<close> of a tile per tick, more than that window is wide. In the
  run above the second ghost is eaten in frame 49 and moves up the column \<open>x = 8\<close>; it steps
  from \<open>0.146\<close> below the centre of \<open>(8, 5)\<close> to \<open>0.146\<close> above it, is never asked for a
  direction there, and after frame 57 its rounded tile is the wall \<open>(8, 4)\<close>.
\<close>

theorem ghost_walks_into_wall:
  "reachable (run wall_events (Game_init (replay wall_draws)))
   \<and> round_tile (g_pos (ghosts (fst (run wall_events (Game_init (replay wall_draws)))) ! 1)) = (8, 4)
   \<and> (8, 4) \<in> walls (maze (fst (run wall_events (Game_init (replay wall_draws)))))"
proof -
  have "reachable (run wall_events (Game_init (replay wall_draws)))"
    by (rule reachable_run) (rule reachable.init)
  then show ?thesis
    unfolding wall_run by (simp add: wall_57_def round_defs maze_facts)
qed

end
